theory Spec2Isabelle
  imports Complex_Main
begin

section \<open>The tool manager of the editor core (tool\_manager.ts)\<close>

text \<open>
  The class \<open>ToolManager\<close> holds the single active tool, switches tools on request and
  routes pointer input to the active tool. Its fields and the local variables of the
  closures created by \<open>bindEvent\<close> form the record \<open>tm\<close>; every method and every event
  handler is a function on that record.

  The tools themselves, the key binding manager, the event emitters and the DOM are
  collaborators outside this file. Every call the manager makes to one of them is appended
  to the field \<open>trace\<close>, in call order, so that the order and the receiver of each call can
  be stated. A tool instance is identified by the number it received when it was
  constructed (\<open>tid\<close>); the counter \<open>nextId\<close> hands out these numbers. The callbacks of a
  tool are taken to return normally and not to call back into the manager.

  The numbers of the language (pointer coordinates, the drag threshold) are values of a
  type \<open>'n\<close> about which nothing is assumed. The three operations the code applies to
  them, subtraction, \<open>Math.abs\<close> and \<open>>\<close>, are given with the surroundings of a handler
  run (\<open>env\<close>), so every statement holds for the arithmetic of IEEE doubles as for any
  other.
\<close>

subsection \<open>Data\<close>

record 'n point =
  px :: 'n
  py :: 'n

text \<open>
  The fields of a \<open>PointerEvent\<close> the handlers read. \<open>targetIsCanvas\<close> is the outcome of
  \<open>editor.canvasElement === e.target\<close>, \<open>cursorXY\<close> the value of \<open>editor.getCursorXY(e)\<close>.
\<close>

record 'n pointer_event =
  button :: int
  clientX :: 'n
  clientY :: 'n
  targetIsCanvas :: bool
  cursorXY :: "'n point"

text \<open>
  The surroundings of a handler run: what it reads from the editor at that moment
  (\<open>textEditor.isEditing()\<close>, \<open>hostEventManager.isSpacePressing\<close>,
  \<open>setting.get('dragBlockStep')\<close>), and the arithmetic of the language: \<open>num_sub a b\<close> is
  \<open>a - b\<close>, \<open>num_abs a\<close> is \<open>Math.abs(a)\<close>, \<open>num_gt a b\<close> is \<open>a > b\<close>.
\<close>

record 'n env =
  isEditing :: bool
  isSpacePressing :: bool
  dragBlockStep :: 'n
  num_sub :: "'n \<Rightarrow> 'n \<Rightarrow> 'n"
  num_abs :: "'n \<Rightarrow> 'n"
  num_gt :: "'n \<Rightarrow> 'n \<Rightarrow> bool"

text \<open>
  \<open>ITool\<close>: the instance fields the manager reads (\<open>type\<close>, \<open>cursor\<close>) and, for each
  optional callback, whether the instance has it.
\<close>

record tool =
  tid :: nat
  ttype :: string
  tcursor :: string
  hasOnCommandChange :: bool
  hasOnSpaceToggle :: bool
  hasOnAltToggle :: bool
  hasOnViewportXOrYChange :: bool

text \<open>
  \<open>IToolClassConstructor\<close>: the static fields \<open>type\<close> and \<open>hotkey\<close>, and what \<open>new\<close> gives:
  the fields of the instance it constructs. \<open>String.prototype.toUpperCase\<close> is a builtin of
  the language and is not modelled: \<open>ctor_hotkey_upper\<close> is what \<open>hotkey.toUpperCase()\<close>
  returns for this class.
\<close>

record tool_ctor =
  ctor_type :: string
  ctor_hotkey :: string
  ctor_hotkey_upper :: string
  inst_type :: string
  inst_cursor :: string
  inst_onCommandChange :: bool
  inst_onSpaceToggle :: bool
  inst_onAltToggle :: bool
  inst_onViewportXOrYChange :: bool

datatype listener =
  LPointerDown | LPointerMove | LPointerUp | LCommandChange
  | LSpaceToggle | LAltToggle | LViewportXOrYChange

datatype 'n effect =
  Construct string nat
  | OnActive nat
  | OnInactive nat
  | OnStart nat "'n pointer_event"
  | OnDrag nat "'n pointer_event"
  | OnEnd nat "'n pointer_event" bool
  | AfterEnd nat "'n pointer_event"
  | OnMoveExcludeDrag nat "'n pointer_event" bool
  | OnCommandChange nat
  | OnSpaceToggle nat bool
  | OnAltToggle nat bool
  | OnViewportXOrYChange nat 'n 'n
  | SetCursor string
  | EmitSwitchTool string
  | EmitChangeEnableTools "string list"
  | DisableDragBySpace
  | EnableDragBySpace
  | WarnReplace string
  | LogSameHotkey string
  | WarnNotEnable string

datatype error = NoActiveTool | ToolNotSet | NotRegistered string | NotAFunction

datatype unbind_fn = Unassigned | Teardown | Noop

text \<open>
  The two closures \<open>registerToolCtor\<close> passes to the key binding service (lines 96 to 99),
  each with the tool type it captured: \<open>when\<close> is
  \<open>() => this.enableToolTypes.includes(type)\<close> and \<open>action\<close> is
  \<open>() => { this.setActiveTool(type) }\<close>. What they do when called is \<open>call_when\<close> and
  \<open>call_action\<close> below. A \<open>keybinding\<close> is the object given to \<open>register\<close>.
\<close>

datatype when_fn = EnableToolTypesIncludes string

datatype action_fn = SetActiveToolCall string

record keybinding =
  kb_keyCode :: string
  kb_actionName :: string
  kb_when :: when_fn
  kb_action :: action_fn

record 'n tm =
  toolCtorMap :: "string \<rightharpoonup> tool_ctor"
  hotkeySet :: "string set"
  currentTool :: "tool option"
  enableSwitchTool :: bool
  keyBindingToken :: "nat list"
  u_isDragging :: bool
  enableToolTypes :: "string list"
  currViewportPoint :: "'n point option"
  u_unbindEvent :: unbind_fn
  isPressing :: bool
  startPos :: "'n point"
  startWithLeftMouse :: bool
  keybindings :: "(nat \<times> keybinding) list"
  nextToken :: nat
  listeners :: "listener list"
  pending :: "'n pointer_event list"
  nextId :: nat
  trace :: "'n effect list"

text \<open>
  An operation either returns (\<open>Ok\<close>) or throws (\<open>Throw\<close>); a throw carries the state the
  manager is left in, since the object outlives the exception.
\<close>

datatype 'n result = Ok "'n tm" | Throw error "'n tm"

fun state_of :: "'n result \<Rightarrow> 'n tm" where
  "state_of (Ok s) = s"
| "state_of (Throw e s) = s"

fun is_Ok :: "'n result \<Rightarrow> bool" where
  "is_Ok (Ok s) = True"
| "is_Ok (Throw e s) = False"

definition emit :: "'n effect \<Rightarrow> 'n tm \<Rightarrow> 'n tm" where
  "emit x s = s\<lparr>trace := trace s @ [x]\<rparr>"

text \<open>
  The field initialisers of the class, with \<open>currViewportPoint = None\<close> standing for the
  initial point \<open>(Infinity, Infinity)\<close>, and the editor's services empty. The number 0 of
  \<open>startPos = { x: 0, y: 0 }\<close> is the \<open>0\<close> of the number type.
\<close>

definition fields_init :: "'n::zero tm" where
  "fields_init =
     \<lparr> toolCtorMap = Map.empty, hotkeySet = {}, currentTool = None,
       enableSwitchTool = True, keyBindingToken = [], u_isDragging = False,
       enableToolTypes = [], currViewportPoint = None, u_unbindEvent = Unassigned,
       isPressing = False, startPos = \<lparr>px = 0, py = 0\<rparr>, startWithLeftMouse = False,
       keybindings = [], nextToken = 0, listeners = [], pending = [],
       nextId = 0, trace = [] \<rparr>"

subsection \<open>The key binding service\<close>

text \<open>
  Modelled from the spec: the key binding manager is not part of tool\_manager.ts. The
  spec gives its interface as \<open>register({key, actionName, when, action}) -> token\<close> and
  \<open>unregister(token)\<close>. The service keeps the registered objects with their tokens, and
  hands out a fresh token at each registration.
\<close>

definition kb_register :: "keybinding \<Rightarrow> 'n tm \<Rightarrow> nat \<times> 'n tm" where
  "kb_register binding s =
     (nextToken s,
      s\<lparr>keybindings := keybindings s @ [(nextToken s, binding)],
        nextToken := Suc (nextToken s)\<rparr>)"

definition kb_unregister :: "nat \<Rightarrow> 'n tm \<Rightarrow> 'n tm" where
  "kb_unregister token s = s\<lparr>keybindings := filter (\<lambda>b. fst b \<noteq> token) (keybindings s)\<rparr>"

definition kb_lookup :: "nat \<Rightarrow> 'n tm \<Rightarrow> keybinding option" where
  "kb_lookup token s = map_of (keybindings s) token"

subsection \<open>Methods\<close>

definition unbindHotkey :: "'n tm \<Rightarrow> 'n tm" where
  "unbindHotkey s = (fold kb_unregister (keyBindingToken s) s)\<lparr>keyBindingToken := []\<rparr>"

definition setEnableHotKeyTools :: "string list \<Rightarrow> 'n tm \<Rightarrow> 'n tm" where
  "setEnableHotKeyTools toolTypes s =
     emit (EmitChangeEnableTools toolTypes) (s\<lparr>enableToolTypes := toolTypes\<rparr>)"

definition getEnableTools :: "'n tm \<Rightarrow> string list" where
  "getEnableTools s = enableToolTypes s"

definition registerToolCtor :: "tool_ctor \<Rightarrow> 'n tm \<Rightarrow> 'n tm" where
  "registerToolCtor toolCtor s =
     (let ty = ctor_type toolCtor;
          hotkey = ctor_hotkey toolCtor;
          s1 = (if toolCtorMap s ty \<noteq> None then emit (WarnReplace ty) s else s);
          s2 = s1\<lparr>toolCtorMap := (toolCtorMap s1)(ty \<mapsto> toolCtor)\<rparr>;
          s3 = (if hotkey \<in> hotkeySet s2 then emit (LogSameHotkey hotkey) s2 else s2);
          s4 = s3\<lparr>hotkeySet := insert hotkey (hotkeySet s3)\<rparr>;
          keyCode = ''Key'' @ ctor_hotkey_upper toolCtor;
          (token, s5) =
            kb_register
              \<lparr> kb_keyCode = keyCode, kb_actionName = ty,
                kb_when = EnableToolTypesIncludes ty, kb_action = SetActiveToolCall ty \<rparr>
              s4
      in s5\<lparr>keyBindingToken := keyBindingToken s5 @ [token]\<rparr>)"

definition getActiveToolName :: "'n tm \<Rightarrow> string option" where
  "getActiveToolName s = map_option ttype (currentTool s)"

definition new_tool :: "tool_ctor \<Rightarrow> nat \<Rightarrow> tool" where
  "new_tool c n =
     \<lparr> tid = n, ttype = inst_type c, tcursor = inst_cursor c,
       hasOnCommandChange = inst_onCommandChange c,
       hasOnSpaceToggle = inst_onSpaceToggle c,
       hasOnAltToggle = inst_onAltToggle c,
       hasOnViewportXOrYChange = inst_onViewportXOrYChange c \<rparr>"

definition setCursorWhenActive :: "'n tm \<Rightarrow> 'n tm" where
  "setCursorWhenActive s =
     (case currentTool s of None \<Rightarrow> s | Some t \<Rightarrow> emit (SetCursor (tcursor t)) s)"

definition setActiveTool :: "string \<Rightarrow> 'n tm \<Rightarrow> 'n result" where
  "setActiveTool toolName s =
     (if \<not> enableSwitchTool s \<or> getActiveToolName s = Some toolName then Ok s
      else if toolName \<notin> set (enableToolTypes s) then Ok (emit (WarnNotEnable toolName) s)
      else
        (case toolCtorMap s toolName of
           None \<Rightarrow> Throw (NotRegistered toolName) s
         | Some currentToolCtor \<Rightarrow>
             (let prevTool = currentTool s;
                  newTool = new_tool currentToolCtor (nextId s);
                  s1 = emit (Construct (ctor_type currentToolCtor) (nextId s))
                         (s\<lparr>nextId := Suc (nextId s)\<rparr>);
                  s2 = s1\<lparr>currentTool := Some newTool\<rparr>;
                  s3 = (case prevTool of None \<Rightarrow> s2
                        | Some p \<Rightarrow> emit (OnInactive (tid p)) s2);
                  s4 = setCursorWhenActive s3;
                  s5 = emit (OnActive (tid newTool)) s4
              in Ok (emit (EmitSwitchTool (ttype newTool)) s5))))"

definition destroy :: "'n tm \<Rightarrow> 'n tm" where
  "destroy s = (case currentTool s of None \<Rightarrow> s | Some t \<Rightarrow> emit (OnInactive (tid t)) s)"

definition isDragging :: "'n tm \<Rightarrow> bool" where
  "isDragging s = u_isDragging s"

subsection \<open>Event handlers of bindEvent\<close>

text \<open>
  \<open>handleDown\<close> only schedules its body with \<open>setTimeout\<close>; the scheduled bodies wait in
  \<open>pending\<close> and \<open>runTimeout\<close> runs the oldest one, reading the editor at that moment.
\<close>

definition handleDown :: "'n pointer_event \<Rightarrow> 'n tm \<Rightarrow> 'n tm" where
  "handleDown e s = s\<lparr>pending := pending s @ [e]\<rparr>"

definition handleDown_deferred :: "'n env \<Rightarrow> 'n pointer_event \<Rightarrow> 'n tm \<Rightarrow> 'n result" where
  "handleDown_deferred ev e s =
     (let s1 = s\<lparr>isPressing := False, u_isDragging := False, startWithLeftMouse := False\<rparr>
      in if button e \<noteq> 0 \<or> isEditing ev \<or> isSpacePressing ev then Ok s1
         else
           (let s2 = s1\<lparr>isPressing := True, startWithLeftMouse := True\<rparr>
            in case currentTool s2 of
                 None \<Rightarrow> Throw NoActiveTool s2
               | Some t \<Rightarrow>
                   Ok (emit (OnStart (tid t) e)
                         (s2\<lparr>startPos := \<lparr>px = clientX e, py = clientY e\<rparr>\<rparr>))))"

definition runTimeout :: "'n env \<Rightarrow> 'n tm \<Rightarrow> 'n result" where
  "runTimeout ev s =
     (case pending s of
        [] \<Rightarrow> Ok s
      | e # rest \<Rightarrow> handleDown_deferred ev e (s\<lparr>pending := rest\<rparr>))"

definition handleMove :: "'n env \<Rightarrow> 'n pointer_event \<Rightarrow> 'n tm \<Rightarrow> 'n result" where
  "handleMove ev e s =
     (let s1 = s\<lparr>currViewportPoint := Some (cursorXY e)\<rparr>
      in case currentTool s1 of
           None \<Rightarrow> Throw ToolNotSet s1
         | Some t \<Rightarrow>
             if isPressing s1 then
               (if \<not> startWithLeftMouse s1 then Ok s1
                else
                  (let dx = num_sub ev (clientX e) (px (startPos s1));
                       dy = num_sub ev (clientY e) (py (startPos s1));
                       s2 = (if \<not> u_isDragging s1 \<and>
                                (num_gt ev (num_abs ev dx) (dragBlockStep ev)
                                 \<or> num_gt ev (num_abs ev dy) (dragBlockStep ev))
                             then s1\<lparr>u_isDragging := True\<rparr> else s1)
                   in if u_isDragging s2
                      then Ok (emit (OnDrag (tid t) e)
                                 (emit DisableDragBySpace (s2\<lparr>enableSwitchTool := False\<rparr>)))
                      else Ok s2))
             else Ok (emit (OnMoveExcludeDrag (tid t) e (\<not> targetIsCanvas e)) s1))"

definition handleUp :: "'n pointer_event \<Rightarrow> 'n tm \<Rightarrow> 'n result" where
  "handleUp e s =
     (let s1 = s\<lparr>enableSwitchTool := True\<rparr>
      in if \<not> startWithLeftMouse s1 then Ok s1
         else
           (case currentTool s1 of
              None \<Rightarrow> Throw ToolNotSet s1
            | Some t \<Rightarrow>
                (let s2 = (if isPressing s1
                           then emit (AfterEnd (tid t) e)
                                  (emit (OnEnd (tid t) e (u_isDragging s1))
                                     ((emit EnableDragBySpace s1)\<lparr>isPressing := False\<rparr>))
                           else s1)
                 in Ok (s2\<lparr>u_isDragging := False\<rparr>))))"

definition handleCommandChange :: "'n tm \<Rightarrow> 'n tm" where
  "handleCommandChange s =
     (case currentTool s of
        None \<Rightarrow> s
      | Some t \<Rightarrow> if hasOnCommandChange t then emit (OnCommandChange (tid t)) s else s)"

definition handleSpaceToggle :: "bool \<Rightarrow> 'n tm \<Rightarrow> 'n tm" where
  "handleSpaceToggle b s =
     (case currentTool s of
        None \<Rightarrow> s
      | Some t \<Rightarrow> if hasOnSpaceToggle t then emit (OnSpaceToggle (tid t) b) s else s)"

definition handleAltToggle :: "bool \<Rightarrow> 'n tm \<Rightarrow> 'n tm" where
  "handleAltToggle b s =
     (case currentTool s of
        None \<Rightarrow> s
      | Some t \<Rightarrow> if hasOnAltToggle t then emit (OnAltToggle (tid t) b) s else s)"

definition handleViewportXOrYChange :: "'n \<Rightarrow> 'n \<Rightarrow> 'n tm \<Rightarrow> 'n tm" where
  "handleViewportXOrYChange vx vy s =
     (case currentTool s of
        None \<Rightarrow> s
      | Some t \<Rightarrow>
          if hasOnViewportXOrYChange t then emit (OnViewportXOrYChange (tid t) vx vy) s
          else s)"

text \<open>\<open>bindEvent\<close> initialises the closure variables and installs seven listeners.\<close>

definition bindEvent :: "'n::zero tm \<Rightarrow> 'n tm" where
  "bindEvent s =
     s\<lparr>isPressing := False, startPos := \<lparr>px = 0, py = 0\<rparr>,
       startWithLeftMouse := False,
       listeners := listeners s @
         [LPointerDown, LPointerMove, LPointerUp, LCommandChange, LSpaceToggle,
          LAltToggle, LViewportXOrYChange]\<rparr>"

text \<open>The function \<open>bindEvent\<close> returns: it removes five listeners.\<close>

definition teardown :: "'n tm \<Rightarrow> 'n tm" where
  "teardown s =
     s\<lparr>listeners :=
         filter (\<lambda>l. l \<notin> {LPointerDown, LPointerMove, LPointerUp, LCommandChange, LSpaceToggle})
           (listeners s)\<rparr>"

definition unbindEvent :: "'n tm \<Rightarrow> 'n result" where
  "unbindEvent s =
     (case u_unbindEvent s of
        Unassigned \<Rightarrow> Throw NotAFunction s
      | Teardown \<Rightarrow> Ok (unbindHotkey ((teardown s)\<lparr>u_unbindEvent := Noop\<rparr>))
      | Noop \<Rightarrow> Ok (unbindHotkey (s\<lparr>u_unbindEvent := Noop\<rparr>)))"

text \<open>
  What the two closures of \<open>registerToolCtor\<close> do when they are called, on the manager as it
  is at the moment of the call (lines 96 to 99).
\<close>

definition call_when :: "when_fn \<Rightarrow> 'n tm \<Rightarrow> bool" where
  "call_when w s = (case w of EnableToolTypesIncludes ty \<Rightarrow> ty \<in> set (enableToolTypes s))"

definition call_action :: "action_fn \<Rightarrow> 'n tm \<Rightarrow> 'n result" where
  "call_action a s = (case a of SetActiveToolCall ty \<Rightarrow> setActiveTool ty s)"

text \<open>
  Modelled from the spec: what the key binding service does when the key of a registered
  binding is pressed is not part of tool\_manager.ts. Following the interface in the spec
  (\<open>when: () -> bool\<close>, \<open>action: () -> void\<close>), the service calls the \<open>when\<close> of the binding
  and, if it returns true, its \<open>action\<close>.
\<close>

definition triggerHotkey :: "nat \<Rightarrow> 'n tm \<Rightarrow> 'n result" where
  "triggerHotkey token s =
     (case kb_lookup token s of
        None \<Rightarrow> Ok s
      | Some b \<Rightarrow> if call_when (kb_when b) s then call_action (kb_action b) s else Ok s)"

subsection \<open>The constructor\<close>

text \<open>The eight tool classes the constructor imports are parameters of the model.\<close>

record tool_classes =
  SelectTool :: tool_ctor
  DrawRectTool :: tool_ctor
  DrawEllipseTool :: tool_ctor
  DrawLineTool :: tool_ctor
  DrawTextTool :: tool_ctor
  DragCanvasTool :: tool_ctor
  PathSelectTool :: tool_ctor
  DrawPathTool :: tool_ctor

definition constructor :: "tool_classes \<Rightarrow> 'n::zero result" where
  "constructor tc =
     (let s1 = fold registerToolCtor
                 [SelectTool tc, DrawRectTool tc, DrawEllipseTool tc, DrawLineTool tc,
                  DrawTextTool tc, DragCanvasTool tc, PathSelectTool tc, DrawPathTool tc]
                 fields_init;
          s2 = setEnableHotKeyTools
                 [ctor_type (SelectTool tc), ctor_type (DrawRectTool tc),
                  ctor_type (DrawEllipseTool tc), ctor_type (DrawPathTool tc),
                  ctor_type (DrawLineTool tc), ctor_type (DrawTextTool tc),
                  ctor_type (DragCanvasTool tc)] s1
      in case setActiveTool (ctor_type (SelectTool tc)) s2 of
           Throw err s3 \<Rightarrow> Throw err s3
         | Ok s3 \<Rightarrow> Ok ((bindEvent s3)\<lparr>u_unbindEvent := Teardown\<rparr>))"

subsection \<open>Runs of the manager\<close>

text \<open>
  What can happen to a constructed manager: a call of a public method, or an event of one
  of the sources \<open>bindEvent\<close> listens to. An event reaches its handler only while the
  listener is installed. A timeout runs whether or not listeners are still installed.
\<close>

datatype 'n op =
  SetActiveTool string
  | SetEnableHotKeyTools "string list"
  | TriggerHotkey nat
  | PointerDown "'n pointer_event"
  | Timeout "'n env"
  | PointerMove "'n env" "'n pointer_event"
  | PointerUp "'n pointer_event"
  | CommandChange
  | SpaceToggle bool
  | AltToggle bool
  | ViewportXOrYChange 'n 'n
  | UnbindEvent
  | Destroy

fun fire :: "'n op \<Rightarrow> 'n tm \<Rightarrow> 'n result" where
  "fire (SetActiveTool ty) s = setActiveTool ty s"
| "fire (SetEnableHotKeyTools tys) s = Ok (setEnableHotKeyTools tys s)"
| "fire (TriggerHotkey token) s = triggerHotkey token s"
| "fire (PointerDown e) s = Ok (if LPointerDown \<in> set (listeners s) then handleDown e s else s)"
| "fire (Timeout ev) s = runTimeout ev s"
| "fire (PointerMove ev e) s =
     (if LPointerMove \<in> set (listeners s) then handleMove ev e s else Ok s)"
| "fire (PointerUp e) s = (if LPointerUp \<in> set (listeners s) then handleUp e s else Ok s)"
| "fire CommandChange s =
     Ok (if LCommandChange \<in> set (listeners s) then handleCommandChange s else s)"
| "fire (SpaceToggle b) s =
     Ok (if LSpaceToggle \<in> set (listeners s) then handleSpaceToggle b s else s)"
| "fire (AltToggle b) s =
     Ok (if LAltToggle \<in> set (listeners s) then handleAltToggle b s else s)"
| "fire (ViewportXOrYChange vx vy) s =
     Ok (if LViewportXOrYChange \<in> set (listeners s) then handleViewportXOrYChange vx vy s
         else s)"
| "fire UnbindEvent s = unbindEvent s"
| "fire Destroy s = Ok (destroy s)"

text \<open>
  A run: the operations one after the other. An exception ends the operation that threw
  it, not the manager; the run goes on from the state the exception left.
\<close>

fun run :: "'n op list \<Rightarrow> 'n tm \<Rightarrow> 'n tm" where
  "run [] s = s"
| "run (a # as) s = run as (state_of (fire a s))"

text \<open>The calls an operation added to the trace.\<close>

definition new_effects :: "'n tm \<Rightarrow> 'n tm \<Rightarrow> 'n effect list" where
  "new_effects s s' = drop (length (trace s)) (trace s')"

text \<open>
  \<open>called_before a b tr\<close>: some call \<open>a\<close> in \<open>tr\<close> is followed, later in \<open>tr\<close>, by a
  call \<open>b\<close>.
\<close>

fun called_before :: "'a \<Rightarrow> 'a \<Rightarrow> 'a list \<Rightarrow> bool" where
  "called_before a b [] = False"
| "called_before a b (x # xs) = ((x = a \<and> b \<in> set xs) \<or> called_before a b xs)"

subsection \<open>An example manager\<close>

text \<open>
  Eight tool classes with the types and hotkeys of the editor's tools (select and
  pathSelect share the hotkey \<open>v\<close>, as the comment in \<open>registerToolCtor\<close> says), and the
  manager the constructor builds from them. It is the concrete input of the examples
  below.
\<close>

definition mk_ctor :: "string \<Rightarrow> string \<Rightarrow> string \<Rightarrow> string \<Rightarrow> bool \<Rightarrow> tool_ctor" where
  "mk_ctor ty hotkey upper cur toggles =
     \<lparr> ctor_type = ty, ctor_hotkey = hotkey, ctor_hotkey_upper = upper, inst_type = ty,
       inst_cursor = cur,
       inst_onCommandChange = False, inst_onSpaceToggle = toggles,
       inst_onAltToggle = toggles, inst_onViewportXOrYChange = toggles \<rparr>"

definition example_classes :: tool_classes where
  "example_classes =
     \<lparr> SelectTool = mk_ctor ''select'' ''v'' ''V'' ''default'' True,
       DrawRectTool = mk_ctor ''drawRect'' ''r'' ''R'' ''crosshair'' False,
       DrawEllipseTool = mk_ctor ''drawEllipse'' ''o'' ''O'' ''crosshair'' False,
       DrawLineTool = mk_ctor ''drawLine'' ''l'' ''L'' ''crosshair'' False,
       DrawTextTool = mk_ctor ''drawText'' ''t'' ''T'' ''text'' False,
       DragCanvasTool = mk_ctor ''dragCanvas'' ''h'' ''H'' ''grab'' False,
       PathSelectTool = mk_ctor ''pathSelect'' ''v'' ''V'' ''default'' False,
       DrawPathTool = mk_ctor ''drawPath'' ''p'' ''P'' ''pen'' False \<rparr>"

text \<open>The binding \<open>registerToolCtor\<close> registers for a tool type and a key code.\<close>

definition mk_binding :: "string \<Rightarrow> string \<Rightarrow> keybinding" where
  "mk_binding keyCode ty =
     \<lparr> kb_keyCode = keyCode, kb_actionName = ty,
       kb_when = EnableToolTypesIncludes ty, kb_action = SetActiveToolCall ty \<rparr>"

text \<open>
  The manager \<open>constructor example_classes\<close> returns, written out. Its numbers are reals
  with exact arithmetic; on the whole numbers of the examples this is the arithmetic of
  doubles.
\<close>

definition example_manager :: "real tm" where
  "example_manager =
     \<lparr> toolCtorMap =
         [''select'' \<mapsto> mk_ctor ''select'' ''v'' ''V'' ''default'' True,
          ''drawRect'' \<mapsto> mk_ctor ''drawRect'' ''r'' ''R'' ''crosshair'' False,
          ''drawEllipse'' \<mapsto> mk_ctor ''drawEllipse'' ''o'' ''O'' ''crosshair'' False,
          ''drawLine'' \<mapsto> mk_ctor ''drawLine'' ''l'' ''L'' ''crosshair'' False,
          ''drawText'' \<mapsto> mk_ctor ''drawText'' ''t'' ''T'' ''text'' False,
          ''dragCanvas'' \<mapsto> mk_ctor ''dragCanvas'' ''h'' ''H'' ''grab'' False,
          ''pathSelect'' \<mapsto> mk_ctor ''pathSelect'' ''v'' ''V'' ''default'' False,
          ''drawPath'' \<mapsto> mk_ctor ''drawPath'' ''p'' ''P'' ''pen'' False],
       hotkeySet = {''p'', ''v'', ''h'', ''t'', ''l'', ''o'', ''r''},
       currentTool = Some (new_tool (mk_ctor ''select'' ''v'' ''V'' ''default'' True) 0),
       enableSwitchTool = True,
       keyBindingToken = [0, 1, 2, 3, 4, 5, 6, 7],
       u_isDragging = False,
       enableToolTypes =
         [''select'', ''drawRect'', ''drawEllipse'', ''drawPath'', ''drawLine'',
          ''drawText'', ''dragCanvas''],
       currViewportPoint = None,
       u_unbindEvent = Teardown,
       isPressing = False,
       startPos = \<lparr>px = 0, py = 0\<rparr>,
       startWithLeftMouse = False,
       keybindings =
         [(0, mk_binding ''KeyV'' ''select''), (1, mk_binding ''KeyR'' ''drawRect''),
          (2, mk_binding ''KeyO'' ''drawEllipse''), (3, mk_binding ''KeyL'' ''drawLine''),
          (4, mk_binding ''KeyT'' ''drawText''), (5, mk_binding ''KeyH'' ''dragCanvas''),
          (6, mk_binding ''KeyV'' ''pathSelect''), (7, mk_binding ''KeyP'' ''drawPath'')],
       nextToken = 8,
       listeners =
         [LPointerDown, LPointerMove, LPointerUp, LCommandChange, LSpaceToggle,
          LAltToggle, LViewportXOrYChange],
       pending = [],
       nextId = 1,
       trace =
         [LogSameHotkey ''v'',
          EmitChangeEnableTools
            [''select'', ''drawRect'', ''drawEllipse'', ''drawPath'', ''drawLine'',
             ''drawText'', ''dragCanvas''],
          Construct ''select'' 0, SetCursor ''default'', OnActive 0,
          EmitSwitchTool ''select''] \<rparr>"

definition example_event :: "int \<Rightarrow> real \<Rightarrow> real \<Rightarrow> real pointer_event" where
  "example_event b cx cy =
     \<lparr> button = b, clientX = cx, clientY = cy, targetIsCanvas = True,
       cursorXY = \<lparr>px = cx, py = cy\<rparr> \<rparr>"

definition example_env :: "real env" where
  "example_env =
     \<lparr> isEditing = False, isSpacePressing = False, dragBlockStep = 5,
       num_sub = (\<lambda>a b. a - b), num_abs = abs, num_gt = (\<lambda>a b. a > b) \<rparr>"

subsection \<open>Derived notions used in the statements\<close>

text \<open>
  The calls a successful \<open>setActiveTool\<close> makes, in order, when it activates the tool class
  \<open>c\<close> in state \<open>s\<close>.
\<close>

definition switch_effects :: "tool_ctor \<Rightarrow> 'n tm \<Rightarrow> 'n effect list" where
  "switch_effects c s =
     Construct (ctor_type c) (nextId s)
     # (case currentTool s of None \<Rightarrow> [] | Some p \<Rightarrow> [OnInactive (tid p)])
     @ [SetCursor (inst_cursor c), OnActive (nextId s), EmitSwitchTool (inst_type c)]"

text \<open>
  Two kinds of operation matter for a press: a timeout runs the deferred body of a
  pointer-down, and a pointer-up ends the press.
\<close>

fun is_Timeout :: "'n op \<Rightarrow> bool" where
  "is_Timeout (Timeout ev) = True"
| "is_Timeout _ = False"

fun is_PointerUp :: "'n op \<Rightarrow> bool" where
  "is_PointerUp (PointerUp e) = True"
| "is_PointerUp _ = False"

text \<open>
  \<open>will_switch ty s\<close>: a call \<open>setActiveTool ty\<close> in state \<open>s\<close> passes the gate check, the
  already-active check, the enabled-set check and the registration check, so it activates
  a new tool.
\<close>

definition will_switch :: "string \<Rightarrow> 'n tm \<Rightarrow> bool" where
  "will_switch ty s =
     (enableSwitchTool s \<and> getActiveToolName s \<noteq> Some ty \<and> ty \<in> set (enableToolTypes s)
      \<and> toolCtorMap s ty \<noteq> None)"

text \<open>
  \<open>last_activated s tys\<close> follows the words of the spec (P1): of the calls
  \<open>setActiveTool ty\<close> made one after the other from \<open>s\<close>, for \<open>ty\<close> in \<open>tys\<close>, the type of
  the last one that activated a tool, if any did.
\<close>

fun last_activated :: "'n tm \<Rightarrow> string list \<Rightarrow> string option" where
  "last_activated s [] = None"
| "last_activated s (ty # tys) =
     (case last_activated (state_of (setActiveTool ty s)) tys of
        Some l \<Rightarrow> Some l
      | None \<Rightarrow> if will_switch ty s then Some ty else None)"

text \<open>
  Which instances are active, read off the trace: an instance becomes active with
  \<open>onActive\<close> and stops being active with \<open>onInactive\<close>. \<open>single_active_from A tr\<close> says that,
  starting with the active instances \<open>A\<close>, at no point of \<open>tr\<close> more than one instance is
  active. \<open>single_active s\<close> says so for the whole history of \<open>s\<close>, and that an instance
  still active is the one the manager holds in \<open>currentTool\<close>.
\<close>

fun active_step :: "nat set \<Rightarrow> 'n effect \<Rightarrow> nat set" where
  "active_step A (OnActive i) = insert i A"
| "active_step A (OnInactive i) = A - {i}"
| "active_step A x = A"

fun single_active_from :: "nat set \<Rightarrow> 'n effect list \<Rightarrow> bool" where
  "single_active_from A [] = (finite A \<and> card A \<le> 1)"
| "single_active_from A (x # tr) =
     (finite A \<and> card A \<le> 1 \<and> single_active_from (active_step A x) tr)"

definition active_set :: "'n effect list \<Rightarrow> nat set" where
  "active_set tr = foldl active_step {} tr"

definition single_active :: "'n tm \<Rightarrow> bool" where
  "single_active s =
     (single_active_from {} (trace s)
      \<and> active_set (trace s) \<subseteq> (case currentTool s of None \<Rightarrow> {} | Some t \<Rightarrow> {tid t}))"

text \<open>
  Calls that do not change which instance is active.
\<close>

fun inert :: "'n effect \<Rightarrow> bool" where
  "inert (OnActive i) = False"
| "inert (OnInactive i) = False"
| "inert x = True"

text \<open>
  \<open>ctors_typed s\<close>: every registered tool class constructs instances whose \<open>type\<close> is the
  type it is registered under. The tool classes are outside tool\_manager.ts; the ones the
  constructor imports declare the same constant as static and as instance \<open>type\<close>.
\<close>

definition ctors_typed :: "'n tm \<Rightarrow> bool" where
  "ctors_typed s = (\<forall>ty c. toolCtorMap s ty = Some c \<longrightarrow> inst_type c = ty)"

text \<open>
  \<open>exceeds ev p e\<close>: the test of \<open>handleMove\<close> that the pointer of event \<open>e\<close> is past the
  drag threshold, measured from the press position \<open>p\<close>:
  \<open>Math.abs(dx) > dragBlockStep || Math.abs(dy) > dragBlockStep\<close>.
\<close>

definition exceeds :: "'n env \<Rightarrow> 'n point \<Rightarrow> 'n pointer_event \<Rightarrow> bool" where
  "exceeds ev p e =
     (num_gt ev (num_abs ev (num_sub ev (clientX e) (px p))) (dragBlockStep ev)
      \<or> num_gt ev (num_abs ev (num_sub ev (clientY e) (py p))) (dragBlockStep ev))"

text \<open>The position a press at event \<open>e\<close> is measured from.\<close>

definition press_point :: "'n pointer_event \<Rightarrow> 'n point" where
  "press_point e = \<lparr>px = clientX e, py = clientY e\<rparr>"

text \<open>A list of pointer-moves as operations.\<close>

definition pointer_moves :: "('n env \<times> 'n pointer_event) list \<Rightarrow> 'n op list" where
  "pointer_moves ms = map (\<lambda>m. PointerMove (fst m) (snd m)) ms"









text \<open>
  \<open>keeps_bindings a\<close>: the operation does not unregister hotkeys (only \<open>unbindEvent\<close> does).
\<close>

fun keeps_bindings :: "'n op \<Rightarrow> bool" where
  "keeps_bindings UnbindEvent = False"
| "keeps_bindings a = True"

text \<open>
  \<open>tokens_fresh s\<close>: the tokens the key binding service has handed out are below the next
  one it will hand out.
\<close>

definition tokens_fresh :: "'n tm \<Rightarrow> bool" where
  "tokens_fresh s = (\<forall>b \<in> set (keybindings s). fst b < nextToken s)"


text \<open>
  \<open>registered_then c cs ops s\<close>: the manager after \<open>registerToolCtor c\<close>, the further
  registrations \<open>cs\<close> and then the operations \<open>ops\<close>.
\<close>

definition registered_then ::
  "tool_ctor \<Rightarrow> tool_ctor list \<Rightarrow> 'n op list \<Rightarrow> 'n tm \<Rightarrow> 'n tm" where
  "registered_then c cs ops s = run ops (fold registerToolCtor cs (registerToolCtor c s))"


section \<open>Properties\<close>

subsection \<open>The example manager is what the constructor builds\<close>

lemma constructor_example: "constructor example_classes = Ok example_manager"
  apply (simp add: constructor_def example_classes_def example_manager_def registerToolCtor_def
      fields_init_def kb_register_def setEnableHotKeyTools_def setActiveTool_def emit_def
      getActiveToolName_def new_tool_def setCursorWhenActive_def bindEvent_def Let_def
      mk_ctor_def mk_binding_def)
  apply blast
  done

lemma example_fields:
  "getActiveToolName example_manager = Some ''select''"
  "currentTool example_manager = Some (new_tool (mk_ctor ''select'' ''v'' ''V'' ''default'' True) 0)"
  "enableSwitchTool example_manager"
  "''drawRect'' \<in> set (enableToolTypes example_manager)"
  "''pathSelect'' \<notin> set (enableToolTypes example_manager)"
  "''eraser'' \<notin> set (enableToolTypes example_manager)"
  "toolCtorMap example_manager ''drawRect'' = Some (mk_ctor ''drawRect'' ''r'' ''R'' ''crosshair'' False)"
  "toolCtorMap example_manager ''select'' = Some (mk_ctor ''select'' ''v'' ''V'' ''default'' True)"
  "toolCtorMap example_manager ''eraser'' = None"
  "nextId example_manager = 1"
  "isPressing example_manager = False"
  "startWithLeftMouse example_manager = False"
  "u_isDragging example_manager = False"
  "pending example_manager = []"
  "LPointerDown \<in> set (listeners example_manager)"
  "LPointerMove \<in> set (listeners example_manager)"
  "LPointerUp \<in> set (listeners example_manager)"
  by (simp_all add: example_manager_def getActiveToolName_def new_tool_def mk_ctor_def)

lemmas example_defs = example_manager_def example_event_def example_env_def mk_ctor_def
  mk_binding_def new_tool_def getActiveToolName_def

lemmas run_defs = setActiveTool_def triggerHotkey_def call_when_def call_action_def
  setEnableHotKeyTools_def handleDown_def
  runTimeout_def handleDown_deferred_def handleMove_def handleUp_def handleCommandChange_def
  handleSpaceToggle_def handleAltToggle_def handleViewportXOrYChange_def destroy_def emit_def
  setCursorWhenActive_def kb_lookup_def new_effects_def Let_def

subsection \<open>What each operation leaves unchanged\<close>

lemma fold_kb_unregister:
  "fold kb_unregister ts s = s\<lparr>keybindings := filter (\<lambda>b. fst b \<notin> set ts) (keybindings s)\<rparr>"
proof (induction ts arbitrary: s)
  case Nil
  then show ?case by simp
next
  case (Cons a ts)
  have "filter (\<lambda>b. fst b \<notin> set ts) (filter (\<lambda>b. fst b \<noteq> a) xs)
          = filter (\<lambda>b. fst b \<notin> set (a # ts)) xs" for xs :: "(nat \<times> string \<times> string) list"
    by (induction xs) auto
  then show ?case by (simp add: Cons.IH) (simp add: kb_unregister_def)
qed

lemma unbindHotkey_eq:
  "unbindHotkey s =
     s\<lparr>keybindings := filter (\<lambda>b. fst b \<notin> set (keyBindingToken s)) (keybindings s),
       keyBindingToken := []\<rparr>"
  by (simp add: unbindHotkey_def fold_kb_unregister)

lemma setActiveTool_switch:
  assumes "enableSwitchTool s" and "getActiveToolName s \<noteq> Some ty"
    and "ty \<in> set (enableToolTypes s)" and "toolCtorMap s ty = Some c"
  shows "setActiveTool ty s =
           Ok (s\<lparr>currentTool := Some (new_tool c (nextId s)),
                 nextId := Suc (nextId s),
                 trace := trace s @ switch_effects c s\<rparr>)"
  using assms
  by (cases "currentTool s")
     (simp_all add: setActiveTool_def setCursorWhenActive_def emit_def new_tool_def
        switch_effects_def Let_def)

lemma setActiveTool_refused:
  assumes "getActiveToolName s = Some X \<or> \<not> enableSwitchTool s"
  shows "setActiveTool X s = Ok s"
  using assms by (auto simp: setActiveTool_def)

lemma setActiveTool_disabled:
  assumes "X \<notin> set (enableToolTypes s)"
  shows "setActiveTool X s = Ok s \<or> setActiveTool X s = Ok (emit (WarnNotEnable X) s)"
  using assms by (simp add: setActiveTool_def)

lemma setActiveTool_unregistered:
  assumes "enableSwitchTool s" and "getActiveToolName s \<noteq> Some ty"
    and "ty \<in> set (enableToolTypes s)" and "toolCtorMap s ty = None"
  shows "setActiveTool ty s = Throw (NotRegistered ty) s"
  using assms by (simp add: setActiveTool_def)

lemma setActiveTool_quiet:
  assumes "\<not> will_switch ty s"
  shows "state_of (setActiveTool ty s) = s
         \<or> state_of (setActiveTool ty s) = emit (WarnNotEnable ty) s"
  using assms by (auto simp: setActiveTool_def will_switch_def split: option.splits)

lemma setActiveTool_cases:
  "(will_switch ty s \<and> (\<exists>c. toolCtorMap s ty = Some c
       \<and> setActiveTool ty s =
           Ok (s\<lparr>currentTool := Some (new_tool c (nextId s)), nextId := Suc (nextId s),
                 trace := trace s @ switch_effects c s\<rparr>)))
   \<or> (\<not> will_switch ty s
       \<and> (state_of (setActiveTool ty s) = s
           \<or> state_of (setActiveTool ty s) = emit (WarnNotEnable ty) s))"
proof (cases "will_switch ty s")
  case True
  then obtain c where c: "toolCtorMap s ty = Some c" by (auto simp: will_switch_def)
  from True have "enableSwitchTool s" "getActiveToolName s \<noteq> Some ty"
    "ty \<in> set (enableToolTypes s)"
    by (simp_all add: will_switch_def)
  from setActiveTool_switch [OF this c] True c show ?thesis by blast
next
  case False
  with setActiveTool_quiet [OF False] show ?thesis by blast
qed

lemma triggerHotkey_refused:
  assumes "\<not> enableSwitchTool s"
  shows "triggerHotkey token s = Ok s"
  using assms
  by (simp add: triggerHotkey_def call_action_def setActiveTool_def
      split: option.splits action_fn.splits)

lemma setEnableHotKeyTools_fields:
  "keybindings (setEnableHotKeyTools tys s) = keybindings s"
  "enableToolTypes (setEnableHotKeyTools tys s) = tys"
  "enableSwitchTool (setEnableHotKeyTools tys s) = enableSwitchTool s"
  "currentTool (setEnableHotKeyTools tys s) = currentTool s"
  "toolCtorMap (setEnableHotKeyTools tys s) = toolCtorMap s"
  "nextId (setEnableHotKeyTools tys s) = nextId s"
  "getActiveToolName (setEnableHotKeyTools tys s) = getActiveToolName s"
  "kb_lookup token (setEnableHotKeyTools tys s) = kb_lookup token s"
  by (simp_all add: setEnableHotKeyTools_def emit_def getActiveToolName_def kb_lookup_def)

lemma setActiveTool_frame:
  "isPressing (state_of (setActiveTool ty s)) = isPressing s"
  "startWithLeftMouse (state_of (setActiveTool ty s)) = startWithLeftMouse s"
  "u_isDragging (state_of (setActiveTool ty s)) = u_isDragging s"
  "enableSwitchTool (state_of (setActiveTool ty s)) = enableSwitchTool s"
  "toolCtorMap (state_of (setActiveTool ty s)) = toolCtorMap s"
  "enableToolTypes (state_of (setActiveTool ty s)) = enableToolTypes s"
  by (simp_all add: setActiveTool_def setCursorWhenActive_def emit_def Let_def
      split: option.splits)

lemma triggerHotkey_frame:
  "isPressing (state_of (triggerHotkey k s)) = isPressing s"
  "startWithLeftMouse (state_of (triggerHotkey k s)) = startWithLeftMouse s"
  "u_isDragging (state_of (triggerHotkey k s)) = u_isDragging s"
  "enableSwitchTool (state_of (triggerHotkey k s)) = enableSwitchTool s"
  by (simp_all add: triggerHotkey_def call_action_def setActiveTool_frame
      split: option.splits action_fn.splits)

lemma handleMove_frame:
  "isPressing (state_of (handleMove ev e s)) = isPressing s"
  "startWithLeftMouse (state_of (handleMove ev e s)) = startWithLeftMouse s"
  "currentTool (state_of (handleMove ev e s)) = currentTool s"
  "u_isDragging s \<Longrightarrow> u_isDragging (state_of (handleMove ev e s))"
  "\<not> enableSwitchTool s \<Longrightarrow> \<not> enableSwitchTool (state_of (handleMove ev e s))"
  by (simp_all add: handleMove_def emit_def Let_def split: option.splits)

lemma runTimeout_frame:
  "enableSwitchTool (state_of (runTimeout ev s)) = enableSwitchTool s"
  "currentTool (state_of (runTimeout ev s)) = currentTool s"
  by (simp_all add: runTimeout_def handleDown_deferred_def emit_def Let_def
      split: option.splits list.splits)

lemma handleUp_frame:
  "currentTool (state_of (handleUp e s)) = currentTool s"
  "\<not> isPressing s \<Longrightarrow> \<not> isPressing (state_of (handleUp e s))"
  by (simp_all add: handleUp_def emit_def Let_def split: option.splits)

lemma unbindEvent_frame:
  "isPressing (state_of (unbindEvent s)) = isPressing s"
  "startWithLeftMouse (state_of (unbindEvent s)) = startWithLeftMouse s"
  "u_isDragging (state_of (unbindEvent s)) = u_isDragging s"
  "enableSwitchTool (state_of (unbindEvent s)) = enableSwitchTool s"
  "currentTool (state_of (unbindEvent s)) = currentTool s"
  by (simp_all add: unbindEvent_def unbindHotkey_eq teardown_def split: unbind_fn.splits)

lemma passive_frame:
  "isPressing (handleCommandChange s) = isPressing s"
  "startWithLeftMouse (handleCommandChange s) = startWithLeftMouse s"
  "u_isDragging (handleCommandChange s) = u_isDragging s"
  "enableSwitchTool (handleCommandChange s) = enableSwitchTool s"
  "currentTool (handleCommandChange s) = currentTool s"
  "isPressing (handleSpaceToggle b s) = isPressing s"
  "startWithLeftMouse (handleSpaceToggle b s) = startWithLeftMouse s"
  "u_isDragging (handleSpaceToggle b s) = u_isDragging s"
  "enableSwitchTool (handleSpaceToggle b s) = enableSwitchTool s"
  "currentTool (handleSpaceToggle b s) = currentTool s"
  "isPressing (handleAltToggle b s) = isPressing s"
  "startWithLeftMouse (handleAltToggle b s) = startWithLeftMouse s"
  "u_isDragging (handleAltToggle b s) = u_isDragging s"
  "enableSwitchTool (handleAltToggle b s) = enableSwitchTool s"
  "currentTool (handleAltToggle b s) = currentTool s"
  "isPressing (handleViewportXOrYChange vx vy s) = isPressing s"
  "startWithLeftMouse (handleViewportXOrYChange vx vy s) = startWithLeftMouse s"
  "u_isDragging (handleViewportXOrYChange vx vy s) = u_isDragging s"
  "enableSwitchTool (handleViewportXOrYChange vx vy s) = enableSwitchTool s"
  "currentTool (handleViewportXOrYChange vx vy s) = currentTool s"
  "isPressing (destroy s) = isPressing s"
  "startWithLeftMouse (destroy s) = startWithLeftMouse s"
  "u_isDragging (destroy s) = u_isDragging s"
  "enableSwitchTool (destroy s) = enableSwitchTool s"
  "currentTool (destroy s) = currentTool s"
  "isPressing (setEnableHotKeyTools tys s) = isPressing s"
  "startWithLeftMouse (setEnableHotKeyTools tys s) = startWithLeftMouse s"
  "u_isDragging (setEnableHotKeyTools tys s) = u_isDragging s"
  "isPressing (handleDown e s) = isPressing s"
  "startWithLeftMouse (handleDown e s) = startWithLeftMouse s"
  "u_isDragging (handleDown e s) = u_isDragging s"
  "enableSwitchTool (handleDown e s) = enableSwitchTool s"
  "currentTool (handleDown e s) = currentTool s"
  by (simp_all add: handleCommandChange_def handleSpaceToggle_def handleAltToggle_def
      handleViewportXOrYChange_def destroy_def setEnableHotKeyTools_def handleDown_def
      emit_def split: option.splits)

lemmas frames = setActiveTool_frame triggerHotkey_frame handleMove_frame runTimeout_frame
  handleUp_frame unbindEvent_frame passive_frame setEnableHotKeyTools_fields


subsection \<open>A single active tool\<close>

lemma single_active_from_start:
  "single_active_from A tr \<Longrightarrow> finite A \<and> card A \<le> 1"
  by (cases tr) simp_all

lemma single_active_from_append:
  "single_active_from A (tr @ d)
     = (single_active_from A tr \<and> single_active_from (foldl active_step A tr) d)"
proof (induction tr arbitrary: A)
  case Nil
  then show ?case using single_active_from_start [of A d] by auto
next
  case (Cons x tr)
  then show ?case by auto
qed

lemma inert_foldl:
  assumes "\<forall>x \<in> set d. inert x"
  shows "foldl active_step A d = A"
  using assms
proof (induction d)
  case Nil
  then show ?case by simp
next
  case (Cons x d)
  then show ?case by (cases x) simp_all
qed

lemma inert_single:
  assumes "\<forall>x \<in> set d. inert x"
  shows "single_active_from A d = (finite A \<and> card A \<le> 1)"
  using assms
proof (induction d)
  case Nil
  then show ?case by simp
next
  case (Cons x d)
  then show ?case by (cases x) auto
qed

lemma single_active_from_end:
  "single_active_from A tr
     \<Longrightarrow> finite (foldl active_step A tr) \<and> card (foldl active_step A tr) \<le> 1"
  by (induction tr arbitrary: A) simp_all

lemma single_active_inert:
  assumes "single_active s" and "trace s' = trace s @ d" and "\<forall>x \<in> set d. inert x"
    and "currentTool s' = currentTool s"
  shows "single_active s'"
proof -
  from assms(1) have h: "single_active_from {} (trace s)"
    by (simp add: single_active_def)
  from single_active_from_end [OF h] assms show ?thesis
    by (simp add: single_active_def active_set_def single_active_from_append
        inert_foldl inert_single)
qed

lemma subset_single:
  fixes A :: "nat set"
  assumes "A \<subseteq> {p}"
  shows "finite A" and "card A \<le> 1" and "A - {p} = {}"
proof -
  from assms have "A = {} \<or> A = {p}" by blast
  then show "finite A" and "card A \<le> 1" and "A - {p} = {}" by auto
qed

lemma single_active_switch:
  assumes "single_active s"
  shows "single_active (s\<lparr>currentTool := Some (new_tool c (nextId s)),
                          nextId := Suc (nextId s),
                          trace := trace s @ switch_effects c s\<rparr>)"
proof (cases "currentTool s")
  case None
  with assms show ?thesis
    by (simp add: single_active_def active_set_def single_active_from_append
        switch_effects_def new_tool_def)
next
  case (Some p)
  with assms have sub: "foldl active_step {} (trace s) \<subseteq> {tid p}"
    by (simp add: single_active_def active_set_def)
  note e = subset_single [OF sub]
  from Some assms e(1,2) show ?thesis
    by (simp add: single_active_def active_set_def single_active_from_append
        switch_effects_def new_tool_def e(3))
qed

lemma setActiveTool_single_active:
  assumes "single_active s"
  shows "single_active (state_of (setActiveTool ty s))"
  using setActiveTool_cases [of ty s]
proof (elim disjE conjE exE)
  fix c
  assume "setActiveTool ty s =
           Ok (s\<lparr>currentTool := Some (new_tool c (nextId s)), nextId := Suc (nextId s),
                 trace := trace s @ switch_effects c s\<rparr>)"
  then show ?thesis using single_active_switch [OF assms, of c] by simp
next
  assume "state_of (setActiveTool ty s) = s"
  then show ?thesis using assms by simp
next
  assume "state_of (setActiveTool ty s) = emit (WarnNotEnable ty) s"
  then show ?thesis
    using single_active_inert [OF assms, of "emit (WarnNotEnable ty) s" "[WarnNotEnable ty]"]
    by (simp add: emit_def)
qed

lemma setActiveTool_name:
  assumes "ctors_typed s"
  shows "getActiveToolName (state_of (setActiveTool ty s))
           = (if will_switch ty s then Some ty else getActiveToolName s)"
  using setActiveTool_cases [of ty s] assms
  by (auto simp: getActiveToolName_def new_tool_def ctors_typed_def emit_def)

lemma triggerHotkey_single_active:
  assumes "single_active s"
  shows "single_active (state_of (triggerHotkey token s))"
  using assms setActiveTool_single_active
  by (auto simp: triggerHotkey_def call_action_def split: option.splits action_fn.splits)

lemma destroy_single_active:
  assumes "single_active s"
  shows "single_active (destroy s)"
proof (cases "currentTool s")
  case None
  with assms show ?thesis by (simp add: destroy_def)
next
  case (Some p)
  with assms have sub: "foldl active_step {} (trace s) \<subseteq> {tid p}"
    by (simp add: single_active_def active_set_def)
  note e = subset_single [OF sub]
  from Some assms e(1,2) show ?thesis
    by (simp add: single_active_def active_set_def single_active_from_append destroy_def
        emit_def e(3))
qed

lemma fire_single_active:
  assumes "single_active s"
  shows "single_active (state_of (fire a s))"
proof (cases a)
  case (SetActiveTool ty)
  then show ?thesis using setActiveTool_single_active [OF assms] by simp
next
  case (TriggerHotkey token)
  then show ?thesis using triggerHotkey_single_active [OF assms] by simp
next
  case Destroy
  then show ?thesis using destroy_single_active [OF assms] by simp
next
  case (SetEnableHotKeyTools tys)
  then show ?thesis
    using single_active_inert [OF assms, of _ "[EmitChangeEnableTools tys]"]
    by (simp add: setEnableHotKeyTools_def emit_def)
next
  case (PointerDown e)
  then show ?thesis
    using single_active_inert [OF assms, of _ "[]"] by (simp add: handleDown_def)
next
  case (Timeout ev)
  have "\<exists>d. trace (state_of (runTimeout ev s)) = trace s @ d \<and> (\<forall>x \<in> set d. inert x)"
    by (cases "pending s"; cases "currentTool s")
       (auto simp: runTimeout_def handleDown_deferred_def emit_def Let_def)
  with Timeout show ?thesis
    using single_active_inert [OF assms, of "state_of (runTimeout ev s)"]
    by (auto simp: runTimeout_frame)
next
  case (PointerMove ev e)
  have "\<exists>d. trace (state_of (handleMove ev e s)) = trace s @ d \<and> (\<forall>x \<in> set d. inert x)"
    by (cases "currentTool s") (simp_all add: handleMove_def emit_def Let_def)
  with PointerMove show ?thesis
    using single_active_inert [OF assms, of "state_of (handleMove ev e s)"] assms
    by (auto simp: handleMove_frame)
next
  case (PointerUp e)
  have "\<exists>d. trace (state_of (handleUp e s)) = trace s @ d \<and> (\<forall>x \<in> set d. inert x)"
    by (cases "currentTool s") (simp_all add: handleUp_def emit_def Let_def)
  with PointerUp show ?thesis
    using single_active_inert [OF assms, of "state_of (handleUp e s)"] assms
    by (auto simp: handleUp_frame)
next
  case CommandChange
  have "\<exists>d. trace (handleCommandChange s) = trace s @ d \<and> (\<forall>x \<in> set d. inert x)"
    by (cases "currentTool s") (simp_all add: handleCommandChange_def emit_def)
  with CommandChange show ?thesis
    using single_active_inert [OF assms, of "handleCommandChange s"] assms
    by (auto simp: passive_frame)
next
  case (SpaceToggle b)
  have "\<exists>d. trace (handleSpaceToggle b s) = trace s @ d \<and> (\<forall>x \<in> set d. inert x)"
    by (cases "currentTool s") (simp_all add: handleSpaceToggle_def emit_def)
  with SpaceToggle show ?thesis
    using single_active_inert [OF assms, of "handleSpaceToggle b s"] assms
    by (auto simp: passive_frame)
next
  case (AltToggle b)
  have "\<exists>d. trace (handleAltToggle b s) = trace s @ d \<and> (\<forall>x \<in> set d. inert x)"
    by (cases "currentTool s") (simp_all add: handleAltToggle_def emit_def)
  with AltToggle show ?thesis
    using single_active_inert [OF assms, of "handleAltToggle b s"] assms
    by (auto simp: passive_frame)
next
  case (ViewportXOrYChange vx vy)
  have "\<exists>d. trace (handleViewportXOrYChange vx vy s) = trace s @ d \<and> (\<forall>x \<in> set d. inert x)"
    by (cases "currentTool s") (simp_all add: handleViewportXOrYChange_def emit_def)
  with ViewportXOrYChange show ?thesis
    using single_active_inert [OF assms, of "handleViewportXOrYChange vx vy s"] assms
    by (auto simp: passive_frame)
next
  case UnbindEvent
  have "trace (state_of (unbindEvent s)) = trace s @ []"
    by (simp add: unbindEvent_def unbindHotkey_eq teardown_def split: unbind_fn.splits)
  with UnbindEvent show ?thesis
    using single_active_inert [OF assms, of "state_of (unbindEvent s)" "[]"]
    by (simp add: unbindEvent_frame)
qed

lemma run_single_active:
  assumes "single_active s"
  shows "single_active (run ops s)"
  using assms
proof (induction ops arbitrary: s)
  case Nil
  then show ?case by simp
next
  case (Cons a ops)
  then show ?case using fire_single_active [of s a] by simp
qed

lemma run_setActiveTool_name:
  assumes "ctors_typed s"
  shows "getActiveToolName (run (map SetActiveTool tys) s)
           = (case last_activated s tys of None \<Rightarrow> getActiveToolName s | Some ty \<Rightarrow> Some ty)"
  using assms
proof (induction tys arbitrary: s)
  case Nil
  then show ?case by simp
next
  case (Cons ty tys)
  let ?s' = "state_of (setActiveTool ty s)"
  have "ctors_typed ?s'"
    using Cons.prems by (simp add: ctors_typed_def setActiveTool_frame)
  from Cons.IH [OF this] setActiveTool_name [OF Cons.prems, of ty]
  show ?case by (simp split: option.splits)
qed

lemma registerToolCtor_single_active:
  assumes "single_active s"
  shows "single_active (registerToolCtor c s)"
proof -
  let ?d = "(if toolCtorMap s (ctor_type c) \<noteq> None then [WarnReplace (ctor_type c)] else [])
            @ (if ctor_hotkey c \<in> hotkeySet s then [LogSameHotkey (ctor_hotkey c)] else [])"
  have "trace (registerToolCtor c s) = trace s @ ?d"
    by (simp add: registerToolCtor_def kb_register_def emit_def Let_def)
  moreover have "\<forall>x \<in> set ?d. inert x" by auto
  moreover have "currentTool (registerToolCtor c s) = currentTool s"
    by (simp add: registerToolCtor_def kb_register_def emit_def Let_def)
  ultimately show ?thesis by (rule single_active_inert [OF assms])
qed

lemma fold_registerToolCtor_single_active:
  assumes "single_active s"
  shows "single_active (fold registerToolCtor cs s)"
  using assms by (induction cs arbitrary: s) (simp_all add: registerToolCtor_single_active)

lemma constructor_single_active:
  "single_active (state_of (constructor tc :: 'n::zero result))"
proof -
  let ?s1 = "fold registerToolCtor
               [SelectTool tc, DrawRectTool tc, DrawEllipseTool tc, DrawLineTool tc,
                DrawTextTool tc, DragCanvasTool tc, PathSelectTool tc, DrawPathTool tc]
               (fields_init :: 'n tm)"
  let ?tys = "[ctor_type (SelectTool tc), ctor_type (DrawRectTool tc),
               ctor_type (DrawEllipseTool tc), ctor_type (DrawPathTool tc),
               ctor_type (DrawLineTool tc), ctor_type (DrawTextTool tc),
               ctor_type (DragCanvasTool tc)]"
  let ?s2 = "setEnableHotKeyTools ?tys ?s1"
  let ?r = "setActiveTool (ctor_type (SelectTool tc)) ?s2"
  have "single_active (fields_init :: 'n tm)"
    by (simp add: single_active_def active_set_def fields_init_def)
  then have "single_active ?s1" by (rule fold_registerToolCtor_single_active)
  then have "single_active ?s2"
    using single_active_inert [of ?s1 ?s2 "[EmitChangeEnableTools ?tys]"]
    by (simp add: setEnableHotKeyTools_def emit_def)
  then have r: "single_active (state_of ?r)" by (rule setActiveTool_single_active)
  have c: "constructor tc =
             (case ?r of Throw err s3 \<Rightarrow> Throw err s3
              | Ok s3 \<Rightarrow> Ok ((bindEvent s3)\<lparr>u_unbindEvent := Teardown\<rparr>))"
    by (simp add: constructor_def Let_def)
  show ?thesis
  proof (cases ?r)
    case (Ok s3)
    with r have "single_active s3" by simp
    then have "single_active ((bindEvent s3)\<lparr>u_unbindEvent := Teardown\<rparr>)"
      by (simp add: single_active_def bindEvent_def)
    with Ok c show ?thesis by simp
  next
    case (Throw err s3)
    with r c show ?thesis by simp
  qed
qed

lemma example_invariants:
  "single_active example_manager" "ctors_typed example_manager"
proof -
  show "single_active example_manager"
    using constructor_single_active [where ?'n = real, of example_classes]
    by (simp add: constructor_example)
  show "ctors_typed example_manager"
    by (auto simp: ctors_typed_def example_manager_def mk_ctor_def split: if_splits)
qed

text \<open>
  C1. Along every sequence of \<open>setActiveTool\<close> calls (and along every run of the manager's
  operations) at most one tool instance is active at any point of the history, and the
  instance still active is the one the manager holds. After the calls
  \<open>getActiveToolName\<close> is the type of the last call that activated a tool, that is, that
  passed the gate, already-active, enabled-set and registration checks; if none did, it is
  what it was. The manager is taken with a history that has the property (every
  constructed manager has one, \<open>constructor_single_active\<close>) and with tool classes whose
  instances carry the type of their class.
\<close>

theorem single_active_tool:
  assumes "single_active s" and "ctors_typed s"
  shows "single_active (run (map SetActiveTool tys) s)
         \<and> single_active (run ops s)
         \<and> getActiveToolName (run (map SetActiveTool tys) s)
             = (case last_activated s tys of None \<Rightarrow> getActiveToolName s
                | Some ty \<Rightarrow> Some ty)"
  using run_single_active [OF assms(1)] run_setActiveTool_name [OF assms(2)] by simp

theorem single_active_tool_witness:
  "single_active (run (map SetActiveTool [''drawRect'', ''drawEllipse'', ''eraser'']) example_manager)
   \<and> getActiveToolName
        (run (map SetActiveTool [''drawRect'', ''drawEllipse'', ''eraser'']) example_manager)
      = Some ''drawEllipse''"
proof -
  have l: "last_activated example_manager [''drawRect'', ''drawEllipse'', ''eraser'']
             = Some ''drawEllipse''"
    by (simp add: will_switch_def example_defs run_defs)
  from single_active_tool [OF example_invariants, of "[''drawRect'', ''drawEllipse'', ''eraser'']" "[]"]
  show ?thesis by (simp only: l option.case)
qed

subsection \<open>Order of the calls of a successful switch\<close>

text \<open>
  C2 as stated has \<open>onInactive\<close> of the previous tool before the construction of the new
  instance. On the example manager, switching from select (instance 0) to drawRect
  (instance 1) constructs instance 1 first and calls \<open>onInactive\<close> on instance 0
  afterwards.
\<close>

theorem setActiveTool_spec_order_counterexample:
  "\<not> called_before (OnInactive 0) (Construct ''drawRect'' 1)
       (new_effects example_manager (state_of (setActiveTool ''drawRect'' example_manager)))
   \<and> called_before (Construct ''drawRect'' 1) (OnInactive 0)
       (new_effects example_manager (state_of (setActiveTool ''drawRect'' example_manager)))"
proof -
  have "setActiveTool ''drawRect'' example_manager =
          Ok (example_manager\<lparr>currentTool := Some (new_tool (mk_ctor ''drawRect'' ''r'' ''R'' ''crosshair'' False) (nextId example_manager)),
                 nextId := Suc (nextId example_manager),
                 trace := trace example_manager @ switch_effects (mk_ctor ''drawRect'' ''r'' ''R'' ''crosshair'' False) example_manager\<rparr>)"
    by (rule setActiveTool_switch) (simp_all add: example_fields)
  then show ?thesis
    by (simp add: new_effects_def switch_effects_def example_fields new_tool_def mk_ctor_def)
qed

text \<open>
  C2, amended. A successful \<open>setActiveTool ty\<close> makes these calls, in this order: it
  constructs the new instance with the registered constructor, calls \<open>onInactive\<close> on the
  previous tool if there is one, sets the cursor of the new tool, calls \<open>onActive\<close> on the
  new instance, and then broadcasts \<open>switchTool\<close> with the type of the new instance. The
  deactivation of the old tool is complete before \<open>onActive\<close> of the new one, and the
  broadcast comes last.
\<close>

theorem setActiveTool_order:
  assumes "enableSwitchTool s" and "getActiveToolName s \<noteq> Some ty"
    and "ty \<in> set (enableToolTypes s)" and "toolCtorMap s ty = Some c"
  shows "\<exists>s'. setActiveTool ty s = Ok s'
           \<and> new_effects s s' =
               [Construct (ctor_type c) (nextId s)]
               @ (case currentTool s of None \<Rightarrow> [] | Some p \<Rightarrow> [OnInactive (tid p)])
               @ [SetCursor (inst_cursor c), OnActive (nextId s), EmitSwitchTool (inst_type c)]
           \<and> currentTool s' = Some (new_tool c (nextId s))"
  using setActiveTool_switch [OF assms]
  by (simp add: new_effects_def switch_effects_def)

theorem setActiveTool_order_witness:
  "is_Ok (setActiveTool ''drawRect'' example_manager)
   \<and> new_effects example_manager (state_of (setActiveTool ''drawRect'' example_manager))
      = [Construct ''drawRect'' 1, OnInactive 0, SetCursor ''crosshair'', OnActive 1,
         EmitSwitchTool ''drawRect'']"
proof -
  let ?c = "mk_ctor ''drawRect'' ''r'' ''R'' ''crosshair'' False"
  have h: "enableSwitchTool example_manager"
    "getActiveToolName example_manager \<noteq> Some ''drawRect''"
    "''drawRect'' \<in> set (enableToolTypes example_manager)"
    "toolCtorMap example_manager ''drawRect'' = Some ?c"
    by (simp_all add: example_fields)
  from setActiveTool_order [OF h] obtain s' where
    "setActiveTool ''drawRect'' example_manager = Ok s'"
    "new_effects example_manager s' =
       [Construct (ctor_type ?c) (nextId example_manager)]
       @ (case currentTool example_manager of None \<Rightarrow> [] | Some p \<Rightarrow> [OnInactive (tid p)])
       @ [SetCursor (inst_cursor ?c), OnActive (nextId example_manager),
          EmitSwitchTool (inst_type ?c)]"
    by blast
  then show ?thesis by (simp add: example_fields new_tool_def mk_ctor_def)
qed

subsection \<open>Calls of setActiveTool that do nothing\<close>

text \<open>
  C5. \<open>setActiveTool X\<close> does nothing when \<open>X\<close> is already the active tool, when the switch
  gate is closed, or when \<open>X\<close> is not in the enabled tool set: it returns without an error,
  the active tool is the same, no \<open>onInactive\<close>, no \<open>onActive\<close> and no \<open>switchTool\<close>
  broadcast is made, and no field of the manager changes. The only call it can make is the
  console warning of the third case.
\<close>

theorem setActiveTool_noop:
  assumes "getActiveToolName s = Some X \<or> \<not> enableSwitchTool s
             \<or> X \<notin> set (enableToolTypes s)"
  shows "\<exists>s'. setActiveTool X s = Ok s'
           \<and> currentTool s' = currentTool s
           \<and> s'\<lparr>trace := trace s\<rparr> = s
           \<and> (\<forall>i. OnInactive i \<notin> set (new_effects s s'))
           \<and> (\<forall>i. OnActive i \<notin> set (new_effects s s'))
           \<and> (\<forall>ty. EmitSwitchTool ty \<notin> set (new_effects s s'))
           \<and> set (new_effects s s') \<subseteq> {WarnNotEnable X}"
proof -
  consider (same) "setActiveTool X s = Ok s"
    | (warn) "setActiveTool X s = Ok (emit (WarnNotEnable X) s)"
    using assms setActiveTool_refused [of s X] setActiveTool_disabled [of X s] by blast
  then show ?thesis
  proof cases
    case same
    then show ?thesis by (simp add: new_effects_def)
  next
    case warn
    then show ?thesis by (simp add: new_effects_def emit_def)
  qed
qed

theorem setActiveTool_noop_witness:
  "is_Ok (setActiveTool ''select'' example_manager)
   \<and> currentTool (state_of (setActiveTool ''select'' example_manager))
       = currentTool example_manager
   \<and> is_Ok (setActiveTool ''pathSelect'' example_manager)
   \<and> currentTool (state_of (setActiveTool ''pathSelect'' example_manager))
       = currentTool example_manager
   \<and> EmitSwitchTool ''pathSelect''
       \<notin> set (new_effects example_manager
                (state_of (setActiveTool ''pathSelect'' example_manager)))"
proof -
  have h1: "getActiveToolName example_manager = Some ''select''
              \<or> \<not> enableSwitchTool example_manager
              \<or> ''select'' \<notin> set (enableToolTypes example_manager)"
    by (simp add: example_fields)
  have h2: "getActiveToolName example_manager = Some ''pathSelect''
              \<or> \<not> enableSwitchTool example_manager
              \<or> ''pathSelect'' \<notin> set (enableToolTypes example_manager)"
    by (simp add: example_fields)
  from setActiveTool_noop [OF h1] obtain s1 where
    "setActiveTool ''select'' example_manager = Ok s1"
    "currentTool s1 = currentTool example_manager"
    by blast
  moreover from setActiveTool_noop [OF h2] obtain s2 where
    "setActiveTool ''pathSelect'' example_manager = Ok s2"
    "currentTool s2 = currentTool example_manager"
    "\<forall>ty. EmitSwitchTool ty \<notin> set (new_effects example_manager s2)"
    by blast
  ultimately show ?thesis by simp
qed

subsection \<open>Fatal precondition violations\<close>

text \<open>
  C6. \<open>setActiveTool ty\<close> throws when \<open>ty\<close> is enabled, not already active, the gate is
  open and no constructor is registered for \<open>ty\<close>; the manager is left exactly as it was,
  so the active tool is unchanged and nothing is broadcast. Pointer input with no active
  tool throws as well: the deferred body of \<open>handleDown\<close> for an accepted press,
  \<open>handleMove\<close> always, and \<open>handleUp\<close> for a press that started with the primary button.
  None of them makes a call, and the active tool stays unset.
\<close>

theorem fatal_precondition_errors:
  "(enableSwitchTool s \<and> getActiveToolName s \<noteq> Some ty \<and> ty \<in> set (enableToolTypes s)
      \<and> toolCtorMap s ty = None
      \<longrightarrow> setActiveTool ty s = Throw (NotRegistered ty) s)
   \<and> (currentTool s = None \<and> button e = 0 \<and> \<not> isEditing ev \<and> \<not> isSpacePressing ev
      \<longrightarrow> (\<exists>s'. handleDown_deferred ev e s = Throw NoActiveTool s'
                \<and> currentTool s' = None \<and> trace s' = trace s))
   \<and> (currentTool s = None
      \<longrightarrow> (\<exists>s'. handleMove ev e s = Throw ToolNotSet s'
                \<and> currentTool s' = None \<and> trace s' = trace s))
   \<and> (currentTool s = None \<and> startWithLeftMouse s
      \<longrightarrow> (\<exists>s'. handleUp e s = Throw ToolNotSet s'
                \<and> currentTool s' = None \<and> trace s' = trace s))"
  by (simp add: setActiveTool_unregistered handleDown_deferred_def handleMove_def
      handleUp_def Let_def)

theorem fatal_precondition_errors_witness:
  "setActiveTool ''eraser'' (setEnableHotKeyTools [''eraser''] example_manager)
     = Throw (NotRegistered ''eraser'') (setEnableHotKeyTools [''eraser''] example_manager)
   \<and> \<not> is_Ok (handleDown_deferred example_env (example_event 0 0 0) (bindEvent fields_init))
   \<and> \<not> is_Ok (handleMove example_env (example_event 0 3 4) (bindEvent fields_init))
   \<and> \<not> is_Ok (handleUp (example_event 0 3 4)
               ((bindEvent fields_init)\<lparr>startWithLeftMouse := True\<rparr>))"
proof -
  let ?s = "setEnableHotKeyTools [''eraser''] example_manager"
  let ?b = "bindEvent (fields_init :: real tm)"
  have a: "enableSwitchTool ?s \<and> getActiveToolName ?s \<noteq> Some ''eraser''
             \<and> ''eraser'' \<in> set (enableToolTypes ?s) \<and> toolCtorMap ?s ''eraser'' = None"
    using example_fields
    by (simp add: setEnableHotKeyTools_def emit_def getActiveToolName_def)
  have b: "currentTool ?b = None \<and> button (example_event 0 0 0) = 0
             \<and> \<not> isEditing example_env \<and> \<not> isSpacePressing example_env"
    by (simp add: bindEvent_def fields_init_def example_event_def example_env_def)
  have c: "currentTool (?b\<lparr>startWithLeftMouse := True\<rparr>) = None
             \<and> startWithLeftMouse (?b\<lparr>startWithLeftMouse := True\<rparr>)"
    by (simp add: bindEvent_def fields_init_def)
  from a fatal_precondition_errors [of ?s "''eraser''"]
  have 1: "setActiveTool ''eraser'' ?s = Throw (NotRegistered ''eraser'') ?s"
    by blast
  from b fatal_precondition_errors [of ?b _ "example_event 0 0 0" example_env]
  obtain s1 where "handleDown_deferred example_env (example_event 0 0 0) ?b
                     = Throw NoActiveTool s1"
    by blast
  then have 2: "\<not> is_Ok (handleDown_deferred example_env (example_event 0 0 0) ?b)"
    by simp
  from b fatal_precondition_errors [of ?b _ "example_event 0 3 4" example_env]
  obtain s2 where "handleMove example_env (example_event 0 3 4) ?b = Throw ToolNotSet s2"
    by blast
  then have 3: "\<not> is_Ok (handleMove example_env (example_event 0 3 4) ?b)"
    by simp
  from c fatal_precondition_errors
           [of "?b\<lparr>startWithLeftMouse := True\<rparr>" _ "example_event 0 3 4"]
  obtain s3 where "handleUp (example_event 0 3 4) (?b\<lparr>startWithLeftMouse := True\<rparr>)
                     = Throw ToolNotSet s3"
    by blast
  then have 4: "\<not> is_Ok (handleUp (example_event 0 3 4) (?b\<lparr>startWithLeftMouse := True\<rparr>))"
    by simp
  from 1 2 3 4 show ?thesis by blast
qed

subsection \<open>Teardown of the listeners\<close>

text \<open>
  C9. After \<open>unbindEvent\<close> on the example manager the listeners for \<open>altToggle\<close> and
  \<open>xOrYChange\<close> are still installed: an alt toggle and a viewport change that follow are
  still dispatched to the active tool.
\<close>

theorem unbindEvent_leaves_listeners:
  "is_Ok (unbindEvent example_manager)
   \<and> listeners (state_of (unbindEvent example_manager)) = [LAltToggle, LViewportXOrYChange]
   \<and> new_effects example_manager (run [UnbindEvent, AltToggle True, ViewportXOrYChange 3 4] example_manager)
       = [OnAltToggle 0 True, OnViewportXOrYChange 0 3 4]"
  by (simp add: unbindEvent_def teardown_def unbindHotkey_def kb_unregister_def
      example_manager_def new_effects_def handleAltToggle_def handleViewportXOrYChange_def
      emit_def new_tool_def mk_ctor_def)

subsection \<open>destroy\<close>

text \<open>
  C10. \<open>destroy\<close> calls \<open>onInactive\<close> on the current tool and keeps the reference:
  \<open>getActiveToolName\<close> still returns the type of that tool, and a following successful
  \<open>setActiveTool\<close> to another type calls \<open>onInactive\<close> on the same instance a second time.
\<close>

theorem destroy_keeps_reference:
  assumes "currentTool s = Some t" and "enableSwitchTool s" and "ty \<noteq> ttype t"
    and "ty \<in> set (enableToolTypes s)" and "toolCtorMap s ty = Some c"
  shows "trace (destroy s) = trace s @ [OnInactive (tid t)]
         \<and> currentTool (destroy s) = Some t
         \<and> getActiveToolName (destroy s) = Some (ttype t)
         \<and> (\<exists>s'. setActiveTool ty (destroy s) = Ok s'
               \<and> new_effects s s' =
                   [OnInactive (tid t), Construct (ctor_type c) (nextId s), OnInactive (tid t),
                    SetCursor (inst_cursor c), OnActive (nextId s), EmitSwitchTool (inst_type c)]
               \<and> count_list (new_effects s s') (OnInactive (tid t)) = 2)"
proof -
  let ?d = "destroy s"
  have d: "?d = s\<lparr>trace := trace s @ [OnInactive (tid t)]\<rparr>"
    using assms(1) by (simp add: destroy_def emit_def)
  have pre: "enableSwitchTool ?d" "getActiveToolName ?d \<noteq> Some ty"
    "ty \<in> set (enableToolTypes ?d)" "toolCtorMap ?d ty = Some c"
    using assms by (auto simp: d getActiveToolName_def)
  have "setActiveTool ty ?d =
          Ok (?d\<lparr>currentTool := Some (new_tool c (nextId ?d)), nextId := Suc (nextId ?d),
                  trace := trace ?d @ switch_effects c ?d\<rparr>)"
    by (rule setActiveTool_switch [OF pre])
  moreover have "trace ?d @ switch_effects c ?d =
      trace s @ [OnInactive (tid t), Construct (ctor_type c) (nextId s), OnInactive (tid t),
                 SetCursor (inst_cursor c), OnActive (nextId s), EmitSwitchTool (inst_type c)]"
    using assms(1) by (simp add: d switch_effects_def)
  ultimately show ?thesis
    using assms(1) by (simp add: d getActiveToolName_def new_effects_def)
qed

theorem destroy_keeps_reference_witness:
  "getActiveToolName (destroy example_manager) = Some ''select''
   \<and> is_Ok (setActiveTool ''drawRect'' (destroy example_manager))
   \<and> new_effects example_manager
        (state_of (setActiveTool ''drawRect'' (destroy example_manager)))
      = [OnInactive 0, Construct ''drawRect'' 1, OnInactive 0, SetCursor ''crosshair'',
         OnActive 1, EmitSwitchTool ''drawRect'']"
proof -
  let ?t = "new_tool (mk_ctor ''select'' ''v'' ''V'' ''default'' True) 0"
  let ?c = "mk_ctor ''drawRect'' ''r'' ''R'' ''crosshair'' False"
  have h: "currentTool example_manager = Some ?t" "enableSwitchTool example_manager"
    "''drawRect'' \<noteq> ttype ?t" "''drawRect'' \<in> set (enableToolTypes example_manager)"
    "toolCtorMap example_manager ''drawRect'' = Some ?c"
    by (simp_all add: example_fields new_tool_def mk_ctor_def)
  from destroy_keeps_reference [OF h] obtain s' where
    "getActiveToolName (destroy example_manager) = Some (ttype ?t)"
    "setActiveTool ''drawRect'' (destroy example_manager) = Ok s'"
    "new_effects example_manager s' =
       [OnInactive (tid ?t), Construct (ctor_type ?c) (nextId example_manager),
        OnInactive (tid ?t), SetCursor (inst_cursor ?c), OnActive (nextId example_manager),
        EmitSwitchTool (inst_type ?c)]"
    by blast
  then show ?thesis by (simp add: new_tool_def mk_ctor_def example_fields)
qed


subsection \<open>A pointer-down that is not accepted\<close>

lemma fire_keeps_idle:
  assumes "\<not> is_Timeout a" and "\<not> isPressing s"
  shows "\<not> isPressing (state_of (fire a s))"
  using assms by (cases a) (simp_all add: frames)

lemma run_keeps_idle:
  assumes "\<forall>a \<in> set ops. \<not> is_Timeout a" and "\<not> isPressing s"
  shows "\<not> isPressing (run ops s)"
  using assms
proof (induction ops arbitrary: s)
  case Nil
  then show ?case by simp
next
  case (Cons a ops)
  then show ?case using fire_keeps_idle [of a s] by simp
qed

lemma handleMove_idle:
  assumes "\<not> isPressing s" and "currentTool s = Some t"
  shows "handleMove ev e s =
           Ok (emit (OnMoveExcludeDrag (tid t) e (\<not> targetIsCanvas e))
                 (s\<lparr>currViewportPoint := Some (cursorXY e)\<rparr>))"
  using assms by (simp add: handleMove_def)

lemma handleDown_deferred_excluded:
  assumes "button e \<noteq> 0 \<or> isEditing ev \<or> isSpacePressing ev"
  shows "handleDown_deferred ev e s =
           Ok (s\<lparr>isPressing := False, u_isDragging := False, startWithLeftMouse := False\<rparr>)"
  using assms by (auto simp: handleDown_deferred_def)

text \<open>
  C7. When the deferred body of a pointer-down runs for an event whose button is not the
  primary one, or while text is being edited, or while space is pressed, it calls
  nothing (no \<open>onStart\<close>), keeps the current tool and leaves the manager not pressing and
  not dragging. Until the deferred body of another pointer-down runs, every pointer-move
  calls \<open>onMoveExcludeDrag\<close> on the current tool, with the flag telling whether the pointer
  is outside the canvas, and no \<open>onDrag\<close>.
\<close>

theorem excluded_pointerdown_stays_idle:
  assumes "button e \<noteq> 0 \<or> isEditing ev \<or> isSpacePressing ev"
  shows "\<exists>s'. handleDown_deferred ev e s = Ok s'
           \<and> trace s' = trace s \<and> currentTool s' = currentTool s
           \<and> \<not> isPressing s' \<and> \<not> startWithLeftMouse s' \<and> \<not> u_isDragging s'
           \<and> (LPointerDown \<in> set (listeners s) \<and> pending s = []
                \<longrightarrow> fire (Timeout ev) (state_of (fire (PointerDown e) s)) = Ok s')
           \<and> (\<forall>ops ev' e' t.
                 (\<forall>a \<in> set ops. \<not> is_Timeout a) \<and> currentTool (run ops s') = Some t
                 \<longrightarrow> (\<exists>s''. handleMove ev' e' (run ops s') = Ok s''
                        \<and> new_effects (run ops s') s''
                            = [OnMoveExcludeDrag (tid t) e' (\<not> targetIsCanvas e')]))"
proof -
  let ?s' = "s\<lparr>isPressing := False, u_isDragging := False, startWithLeftMouse := False\<rparr>"
  have d: "handleDown_deferred ev e s = Ok ?s'"
    by (rule handleDown_deferred_excluded [OF assms])
  have q: "LPointerDown \<in> set (listeners s) \<and> pending s = []
             \<longrightarrow> fire (Timeout ev) (state_of (fire (PointerDown e) s)) = Ok ?s'"
    using assms by (auto simp: runTimeout_def handleDown_def handleDown_deferred_def)
  have m: "\<exists>s''. handleMove ev' e' (run ops ?s') = Ok s''
             \<and> new_effects (run ops ?s') s'' = [OnMoveExcludeDrag (tid t) e' (\<not> targetIsCanvas e')]"
    if "\<forall>a \<in> set ops. \<not> is_Timeout a" and "currentTool (run ops ?s') = Some t"
    for ops ev' e' t
  proof -
    have "\<not> isPressing (run ops ?s')"
      by (rule run_keeps_idle [OF that(1)]) simp
    then show ?thesis
      using handleMove_idle [OF _ that(2)] by (simp add: new_effects_def emit_def)
  qed
  show ?thesis using d q m by auto
qed

theorem excluded_pointerdown_stays_idle_witness:
  "new_effects example_manager
     (run [PointerDown (example_event 2 0 0), Timeout example_env,
           PointerMove example_env (example_event 0 7 7)] example_manager)
     = [OnMoveExcludeDrag 0 (example_event 0 7 7) False]
   \<and> \<not> isPressing (run [PointerDown (example_event 2 0 0), Timeout example_env] example_manager)"
proof -
  let ?e = "example_event 2 0 0"
  let ?m = "example_event 0 7 7"
  let ?t = "new_tool (mk_ctor ''select'' ''v'' ''V'' ''default'' True) 0"
  have h: "button ?e \<noteq> 0 \<or> isEditing example_env \<or> isSpacePressing example_env"
    by (simp add: example_event_def)
  from excluded_pointerdown_stays_idle [OF h, of example_manager] obtain s' where
    s': "trace s' = trace example_manager" "currentTool s' = currentTool example_manager"
      "\<not> isPressing s'"
      "LPointerDown \<in> set (listeners example_manager) \<and> pending example_manager = []
         \<longrightarrow> fire (Timeout example_env) (state_of (fire (PointerDown ?e) example_manager)) = Ok s'"
      "\<forall>ops ev' e' t.
         (\<forall>a \<in> set ops. \<not> is_Timeout a) \<and> currentTool (run ops s') = Some t
         \<longrightarrow> (\<exists>s''. handleMove ev' e' (run ops s') = Ok s''
                \<and> new_effects (run ops s') s'' = [OnMoveExcludeDrag (tid t) e' (\<not> targetIsCanvas e')])"
    by blast
  have r: "run [PointerDown ?e, Timeout example_env] example_manager = s'"
    using s'(4) by (simp add: example_fields)
  have "(\<forall>a \<in> set []. \<not> is_Timeout a) \<and> currentTool (run [] s') = Some ?t"
    using s'(2) by (simp add: example_fields)
  with s'(5) obtain s'' where
    s'': "handleMove example_env ?m (run [] s') = Ok s''"
      "new_effects (run [] s') s'' = [OnMoveExcludeDrag (tid ?t) ?m (\<not> targetIsCanvas ?m)]"
    by blast
  have l: "LPointerMove \<in> set (listeners s')"
    using r by (auto simp: example_manager_def handleDown_def runTimeout_def
        handleDown_deferred_def example_event_def example_env_def)
  have A: "run [PointerDown ?e, Timeout example_env, PointerMove example_env ?m] example_manager = s''"
    using r s''(1) l by simp
  have "new_effects example_manager s'' = new_effects s' s''"
    using s'(1) by (simp add: new_effects_def)
  then have B: "new_effects example_manager s'' = [OnMoveExcludeDrag 0 ?m False]"
    using s''(2) by (simp add: new_tool_def example_event_def)
  show ?thesis
    unfolding A r using B s'(3) by simp
qed


subsection \<open>The drag threshold and the switch gate\<close>

lemma fire_gate_closed:
  assumes "\<not> is_PointerUp a" and "\<not> enableSwitchTool s"
  shows "\<not> enableSwitchTool (state_of (fire a s))
         \<and> currentTool (state_of (fire a s)) = currentTool s"
  using assms
  by (cases a) (simp_all add: frames setActiveTool_refused triggerHotkey_refused)

lemma run_gate_closed:
  assumes "\<forall>a \<in> set ops. \<not> is_PointerUp a" and "\<not> enableSwitchTool s"
  shows "\<not> enableSwitchTool (run ops s) \<and> currentTool (run ops s) = currentTool s"
  using assms
proof (induction ops arbitrary: s)
  case Nil
  then show ?case by simp
next
  case (Cons a ops)
  then show ?case using fire_gate_closed [of a s] by simp
qed

lemma fire_keeps_dragging:
  assumes "\<not> is_PointerUp a" and "\<not> is_Timeout a"
    and "isPressing s \<and> startWithLeftMouse s \<and> u_isDragging s"
  shows "isPressing (state_of (fire a s)) \<and> startWithLeftMouse (state_of (fire a s))
         \<and> u_isDragging (state_of (fire a s))"
  using assms
  by (cases a) (simp_all add: frames)

lemma run_keeps_dragging:
  assumes "\<forall>a \<in> set ops. \<not> is_PointerUp a \<and> \<not> is_Timeout a"
    and "isPressing s \<and> startWithLeftMouse s \<and> u_isDragging s"
  shows "isPressing (run ops s) \<and> startWithLeftMouse (run ops s) \<and> u_isDragging (run ops s)"
  using assms
proof (induction ops arbitrary: s)
  case Nil
  then show ?case by simp
next
  case (Cons a ops)
  then show ?case using fire_keeps_dragging [of a s] by simp
qed

lemma handleMove_within:
  assumes "isPressing s" and "startWithLeftMouse s" and "\<not> u_isDragging s"
    and "currentTool s = Some t" and "\<not> exceeds ev (startPos s) e"
  shows "handleMove ev e s = Ok (s\<lparr>currViewportPoint := Some (cursorXY e)\<rparr>)"
  using assms by (simp add: handleMove_def exceeds_def Let_def)

lemma handleMove_latch:
  assumes "isPressing s" and "startWithLeftMouse s" and "\<not> u_isDragging s"
    and "currentTool s = Some t" and "exceeds ev (startPos s) e"
  shows "handleMove ev e s =
           Ok (s\<lparr>currViewportPoint := Some (cursorXY e), u_isDragging := True,
                 enableSwitchTool := False,
                 trace := trace s @ [DisableDragBySpace, OnDrag (tid t) e]\<rparr>)"
  using assms by (auto simp: handleMove_def exceeds_def Let_def emit_def)

lemma handleMove_dragging:
  assumes "isPressing s" and "startWithLeftMouse s" and "u_isDragging s"
    and "currentTool s = Some t"
  shows "handleMove ev e s =
           Ok (s\<lparr>currViewportPoint := Some (cursorXY e), enableSwitchTool := False,
                 trace := trace s @ [DisableDragBySpace, OnDrag (tid t) e]\<rparr>)"
  using assms by (simp add: handleMove_def Let_def emit_def)

lemma handleUp_opens_gate: "enableSwitchTool (state_of (handleUp e s))"
  by (simp add: handleUp_def Let_def emit_def split: option.splits)

lemma handleDown_deferred_accepted:
  assumes "button e = 0" and "\<not> isEditing ev" and "\<not> isSpacePressing ev"
    and "currentTool s = Some t"
  shows "handleDown_deferred ev e s =
           Ok (s\<lparr>isPressing := True, u_isDragging := False, startWithLeftMouse := True,
                 startPos := \<lparr>px = clientX e, py = clientY e\<rparr>,
                 trace := trace s @ [OnStart (tid t) e]\<rparr>)"
  using assms by (simp add: handleDown_deferred_def emit_def)

text \<open>
  Moves that stay within the threshold leave a press as it is: nothing is called, and
  only the recorded pointer position changes.
\<close>

lemma fire_within_move:
  assumes "isPressing s" and "startWithLeftMouse s" and "\<not> u_isDragging s"
    and "currentTool s = Some t" and "\<not> exceeds ev (startPos s) e"
  shows "\<exists>v. state_of (fire (PointerMove ev e) s) = s\<lparr>currViewportPoint := v\<rparr>"
proof (cases "LPointerMove \<in> set (listeners s)")
  case True
  with handleMove_within [OF assms] show ?thesis
    by (intro exI [of _ "Some (cursorXY e)"]) simp
next
  case False
  then show ?thesis by (intro exI [of _ "currViewportPoint s"]) simp
qed

lemma run_within_moves:
  assumes "isPressing s" and "startWithLeftMouse s" and "\<not> u_isDragging s"
    and "currentTool s = Some t"
    and "\<forall>m \<in> set ms. \<not> exceeds (fst m) (startPos s) (snd m)"
  shows "\<exists>v. run (pointer_moves ms) s = s\<lparr>currViewportPoint := v\<rparr>"
  using assms
proof (induction ms arbitrary: s)
  case Nil
  show ?case by (intro exI [of _ "currViewportPoint s"]) (simp add: pointer_moves_def)
next
  case (Cons m ms)
  from Cons.prems have "\<not> exceeds (fst m) (startPos s) (snd m)" by simp
  from fire_within_move [OF Cons.prems(1-4) this] obtain v where
    v: "state_of (fire (PointerMove (fst m) (snd m)) s) = s\<lparr>currViewportPoint := v\<rparr>"
    by blast
  let ?s' = "s\<lparr>currViewportPoint := v\<rparr>"
  have "\<exists>w. run (pointer_moves ms) ?s' = ?s'\<lparr>currViewportPoint := w\<rparr>"
    using Cons.prems by (intro Cons.IH) simp_all
  then obtain w where "run (pointer_moves ms) ?s' = s\<lparr>currViewportPoint := w\<rparr>"
    by auto
  with v show ?case by (auto simp: pointer_moves_def)
qed

text \<open>
  C4. Take a press with the primary button that the deferred pointer-down body accepts
  (no text editing, space not pressed) with tool \<open>t\<close> active: the body calls \<open>onStart\<close> on
  \<open>t\<close>. The displacement is measured from the position of that pointer-down, with the
  subtraction, absolute value and comparison the code applies to its numbers. As long as
  the moves stay within \<open>dragBlockStep\<close> on both axes nothing is called, the press is not a
  drag and the switch gate is as it was before the press; the next move within the
  threshold again only records the pointer position. The first move \<open>e\<close> that exceeds the
  threshold on some axis sets \<open>isDragging\<close>, closes the switch gate, calls
  \<open>disableDragBySpace\<close> and then \<open>onDrag e\<close> on \<open>t\<close>. From then on, through every run of
  operations without a pointer-up, every \<open>setActiveTool\<close> and every hotkey is refused and
  \<open>t\<close> stays the current tool; through every run without a pointer-up or timeout the press
  stays a drag and every further move \<open>e'\<close> calls \<open>onDrag e'\<close> on \<open>t\<close>; and a pointer-up
  opens the gate again.
\<close>

theorem drag_threshold_latch:
  assumes "button e0 = 0" and "\<not> isEditing ev0" and "\<not> isSpacePressing ev0"
    and "currentTool s = Some t"
    and "\<forall>m \<in> set ms. \<not> exceeds (fst m) (press_point e0) (snd m)"
  shows
    "\<exists>s1 s2. handleDown_deferred ev0 e0 s = Ok s1
       \<and> s2 = run (pointer_moves ms) s1
       \<and> new_effects s s1 = [OnStart (tid t) e0]
       \<and> new_effects s1 s2 = [] \<and> \<not> isDragging s2
       \<and> enableSwitchTool s2 = enableSwitchTool s
       \<and> (\<not> exceeds ev (press_point e0) e
            \<longrightarrow> handleMove ev e s2 = Ok (s2\<lparr>currViewportPoint := Some (cursorXY e)\<rparr>))
       \<and> (exceeds ev (press_point e0) e
            \<longrightarrow> (\<exists>s'. handleMove ev e s2 = Ok s'
                   \<and> isDragging s' \<and> \<not> enableSwitchTool s'
                   \<and> new_effects s2 s' = [DisableDragBySpace, OnDrag (tid t) e]
                   \<and> (\<forall>ops ty token.
                         (\<forall>a \<in> set ops. \<not> is_PointerUp a)
                         \<longrightarrow> setActiveTool ty (run ops s') = Ok (run ops s')
                             \<and> triggerHotkey token (run ops s') = Ok (run ops s')
                             \<and> currentTool (run ops s') = Some t)
                   \<and> (\<forall>ops ev' e'.
                         (\<forall>a \<in> set ops. \<not> is_PointerUp a \<and> \<not> is_Timeout a)
                         \<longrightarrow> isDragging (run ops s')
                             \<and> (\<exists>s''. handleMove ev' e' (run ops s') = Ok s''
                                    \<and> new_effects (run ops s') s''
                                        = [DisableDragBySpace, OnDrag (tid t) e']))
                   \<and> (\<forall>ops e'. enableSwitchTool (state_of (handleUp e' (run ops s'))))))"
proof -
  let ?s1 = "s\<lparr>isPressing := True, u_isDragging := False, startWithLeftMouse := True,
               startPos := \<lparr>px = clientX e0, py = clientY e0\<rparr>,
               trace := trace s @ [OnStart (tid t) e0]\<rparr>"
  have dn: "handleDown_deferred ev0 e0 s = Ok ?s1"
    by (rule handleDown_deferred_accepted [OF assms(1-4)])
  have p1: "isPressing ?s1" "startWithLeftMouse ?s1" "\<not> u_isDragging ?s1"
    "currentTool ?s1 = Some t"
    using assms(4) by simp_all
  have sp: "startPos ?s1 = press_point e0" by (simp add: press_point_def)
  have w: "\<forall>m \<in> set ms. \<not> exceeds (fst m) (startPos ?s1) (snd m)"
    using assms(5) by (simp only: sp)
  from run_within_moves [OF p1 w] obtain v where
    v: "run (pointer_moves ms) ?s1 = ?s1\<lparr>currViewportPoint := v\<rparr>"
    by blast
  define s2 where "s2 = run (pointer_moves ms) ?s1"
  have s2: "s2 = ?s1\<lparr>currViewportPoint := v\<rparr>" by (simp add: s2_def v)
  have p2: "isPressing s2" "startWithLeftMouse s2" "\<not> u_isDragging s2"
    "currentTool s2 = Some t"
    using assms(4) by (simp_all add: s2)
  have sp2: "startPos s2 = press_point e0" by (simp add: s2 press_point_def)
  have g0: "new_effects s ?s1 = [OnStart (tid t) e0]" by (simp add: new_effects_def)
  have g1: "new_effects ?s1 s2 = []" by (simp add: s2 new_effects_def)
  have g2: "\<not> isDragging s2" by (simp add: s2 isDragging_def)
  have g3: "enableSwitchTool s2 = enableSwitchTool s" by (simp add: s2)
  have g4: "\<not> exceeds ev (press_point e0) e
              \<longrightarrow> handleMove ev e s2 = Ok (s2\<lparr>currViewportPoint := Some (cursorXY e)\<rparr>)"
    using handleMove_within [OF p2, of ev e] by (simp add: sp2)
  have g5: "exceeds ev (press_point e0) e
      \<longrightarrow> (\<exists>s'. handleMove ev e s2 = Ok s'
             \<and> isDragging s' \<and> \<not> enableSwitchTool s'
             \<and> new_effects s2 s' = [DisableDragBySpace, OnDrag (tid t) e]
             \<and> (\<forall>ops ty token.
                   (\<forall>a \<in> set ops. \<not> is_PointerUp a)
                   \<longrightarrow> setActiveTool ty (run ops s') = Ok (run ops s')
                       \<and> triggerHotkey token (run ops s') = Ok (run ops s')
                       \<and> currentTool (run ops s') = Some t)
             \<and> (\<forall>ops ev' e'.
                   (\<forall>a \<in> set ops. \<not> is_PointerUp a \<and> \<not> is_Timeout a)
                   \<longrightarrow> isDragging (run ops s')
                       \<and> (\<exists>s''. handleMove ev' e' (run ops s') = Ok s''
                              \<and> new_effects (run ops s') s''
                                  = [DisableDragBySpace, OnDrag (tid t) e']))
             \<and> (\<forall>ops e'. enableSwitchTool (state_of (handleUp e' (run ops s')))))"
  proof
    assume ex: "exceeds ev (press_point e0) e"
    then have ex': "exceeds ev (startPos s2) e" by (simp only: sp2)
    let ?s' = "s2\<lparr>currViewportPoint := Some (cursorXY e), u_isDragging := True,
                  enableSwitchTool := False,
                  trace := trace s2 @ [DisableDragBySpace, OnDrag (tid t) e]\<rparr>"
    have mv: "handleMove ev e s2 = Ok ?s'"
      by (rule handleMove_latch [OF p2 ex'])
    have closed: "\<not> enableSwitchTool ?s'" and cur: "currentTool ?s' = Some t"
      and drag: "isPressing ?s' \<and> startWithLeftMouse ?s' \<and> u_isDragging ?s'"
      using p2 by simp_all
    have gate: "setActiveTool ty (run ops ?s') = Ok (run ops ?s')
                  \<and> triggerHotkey token (run ops ?s') = Ok (run ops ?s')
                  \<and> currentTool (run ops ?s') = Some t"
      if "\<forall>a \<in> set ops. \<not> is_PointerUp a" for ops ty token
      using run_gate_closed [OF that closed] cur
      by (simp add: setActiveTool_refused triggerHotkey_refused)
    have later: "isDragging (run ops ?s')
                   \<and> (\<exists>s''. handleMove ev' e' (run ops ?s') = Ok s''
                          \<and> new_effects (run ops ?s') s''
                              = [DisableDragBySpace, OnDrag (tid t) e'])"
      if h: "\<forall>a \<in> set ops. \<not> is_PointerUp a \<and> \<not> is_Timeout a" for ops ev' e'
    proof -
      from h have "\<forall>a \<in> set ops. \<not> is_PointerUp a" by blast
      from run_gate_closed [OF this closed] cur
      have c: "currentTool (run ops ?s') = Some t" by simp
      from run_keeps_dragging [OF h drag]
      have d: "isPressing (run ops ?s')" "startWithLeftMouse (run ops ?s')"
        "u_isDragging (run ops ?s')"
        by blast+
      show ?thesis
        using handleMove_dragging [OF d c] d(3) by (simp add: new_effects_def isDragging_def)
    qed
    have f1: "isDragging ?s'" by (simp add: isDragging_def)
    have f2: "new_effects s2 ?s' = [DisableDragBySpace, OnDrag (tid t) e]"
      by (simp add: new_effects_def)
    have f3: "\<forall>ops ty token.
                (\<forall>a \<in> set ops. \<not> is_PointerUp a)
                \<longrightarrow> setActiveTool ty (run ops ?s') = Ok (run ops ?s')
                    \<and> triggerHotkey token (run ops ?s') = Ok (run ops ?s')
                    \<and> currentTool (run ops ?s') = Some t"
      by (intro allI impI) (rule gate)
    have f4: "\<forall>ops ev' e'.
                (\<forall>a \<in> set ops. \<not> is_PointerUp a \<and> \<not> is_Timeout a)
                \<longrightarrow> isDragging (run ops ?s')
                    \<and> (\<exists>s''. handleMove ev' e' (run ops ?s') = Ok s''
                           \<and> new_effects (run ops ?s') s''
                               = [DisableDragBySpace, OnDrag (tid t) e'])"
      by (intro allI impI) (rule later)
    have f5: "\<forall>ops e'. enableSwitchTool (state_of (handleUp e' (run ops ?s')))"
      by (intro allI) (rule handleUp_opens_gate)
    show "\<exists>s'. handleMove ev e s2 = Ok s'
            \<and> isDragging s' \<and> \<not> enableSwitchTool s'
            \<and> new_effects s2 s' = [DisableDragBySpace, OnDrag (tid t) e]
            \<and> (\<forall>ops ty token.
                  (\<forall>a \<in> set ops. \<not> is_PointerUp a)
                  \<longrightarrow> setActiveTool ty (run ops s') = Ok (run ops s')
                      \<and> triggerHotkey token (run ops s') = Ok (run ops s')
                      \<and> currentTool (run ops s') = Some t)
            \<and> (\<forall>ops ev' e'.
                  (\<forall>a \<in> set ops. \<not> is_PointerUp a \<and> \<not> is_Timeout a)
                  \<longrightarrow> isDragging (run ops s')
                      \<and> (\<exists>s''. handleMove ev' e' (run ops s') = Ok s''
                             \<and> new_effects (run ops s') s''
                                 = [DisableDragBySpace, OnDrag (tid t) e']))
            \<and> (\<forall>ops e'. enableSwitchTool (state_of (handleUp e' (run ops s'))))"
      by (rule exI [of _ ?s']) (intro conjI mv f1 closed f2 f3 f4 f5)
  qed
  show ?thesis
    by (rule exI [of _ ?s1], rule exI [of _ s2])
       (intro conjI dn g0 g1 g2 g3 g4 g5, simp add: s2_def)
qed

theorem drag_threshold_latch_witness:
  "handleMove example_env (example_event 0 104 53)
       (run (pointer_moves [(example_env, example_event 0 102 52)])
          (state_of (handleDown_deferred example_env (example_event 0 100 50) example_manager)))
     = Ok ((run (pointer_moves [(example_env, example_event 0 102 52)])
              (state_of (handleDown_deferred example_env (example_event 0 100 50)
                 example_manager)))
             \<lparr>currViewportPoint := Some (cursorXY (example_event 0 104 53))\<rparr>)
   \<and> new_effects
        (run (pointer_moves [(example_env, example_event 0 102 52)])
           (state_of (handleDown_deferred example_env (example_event 0 100 50) example_manager)))
        (state_of (handleMove example_env (example_event 0 110 60)
           (run (pointer_moves [(example_env, example_event 0 102 52)])
              (state_of (handleDown_deferred example_env (example_event 0 100 50)
                 example_manager)))))
      = [DisableDragBySpace, OnDrag 0 (example_event 0 110 60)]
   \<and> setActiveTool ''drawRect''
        (state_of (handleMove example_env (example_event 0 110 60)
           (run (pointer_moves [(example_env, example_event 0 102 52)])
              (state_of (handleDown_deferred example_env (example_event 0 100 50)
                 example_manager)))))
      = Ok (state_of (handleMove example_env (example_event 0 110 60)
           (run (pointer_moves [(example_env, example_event 0 102 52)])
              (state_of (handleDown_deferred example_env (example_event 0 100 50)
                 example_manager)))))"
proof -
  let ?t = "new_tool (mk_ctor ''select'' ''v'' ''V'' ''default'' True) 0"
  let ?e0 = "example_event 0 100 50"
  let ?ms = "[(example_env, example_event 0 102 52)]"
  have h: "button ?e0 = 0" "\<not> isEditing example_env" "\<not> isSpacePressing example_env"
    "currentTool example_manager = Some ?t"
    by (simp_all add: example_event_def example_env_def example_fields)
  have w: "\<forall>m \<in> set ?ms. \<not> exceeds (fst m) (press_point ?e0) (snd m)"
    by (simp add: exceeds_def press_point_def example_event_def example_env_def)
  have in4: "\<not> exceeds example_env (press_point ?e0) (example_event 0 104 53)"
    by (simp add: exceeds_def press_point_def example_event_def example_env_def)
  have ex10: "exceeds example_env (press_point ?e0) (example_event 0 110 60)"
    by (simp add: exceeds_def press_point_def example_event_def example_env_def)
  from drag_threshold_latch [OF h w, of example_env "example_event 0 104 53"] in4
  obtain s1 s2 where
    a: "handleDown_deferred example_env ?e0 example_manager = Ok s1"
      "s2 = run (pointer_moves ?ms) s1"
      "handleMove example_env (example_event 0 104 53) s2
         = Ok (s2\<lparr>currViewportPoint := Some (cursorXY (example_event 0 104 53))\<rparr>)"
    by blast
  from drag_threshold_latch [OF h w, of example_env "example_event 0 110 60"] ex10 a(1)
  obtain s' where
    b: "handleMove example_env (example_event 0 110 60) (run (pointer_moves ?ms) s1) = Ok s'"
      "new_effects (run (pointer_moves ?ms) s1) s'
         = [DisableDragBySpace, OnDrag (tid ?t) (example_event 0 110 60)]"
      "\<forall>ops ty token.
          (\<forall>a \<in> set ops. \<not> is_PointerUp a)
          \<longrightarrow> setActiveTool ty (run ops s') = Ok (run ops s')
              \<and> triggerHotkey token (run ops s') = Ok (run ops s')
              \<and> currentTool (run ops s') = Some ?t"
    by auto
  have 3: "setActiveTool ''drawRect'' s' = Ok s'"
    using b(3) [rule_format, of "[]" "''drawRect''" 0] by simp
  have 2: "new_effects (run (pointer_moves ?ms) s1) s'
             = [DisableDragBySpace, OnDrag 0 (example_event 0 110 60)]"
    using b(2) by (simp add: new_tool_def)
  show ?thesis
    unfolding a(1) state_of.simps b(1) using a(2,3) 2 3 by blast
qed


subsection \<open>Pairing of onStart with onEnd and afterEnd\<close>

lemma registerToolCtor_eq:
  "registerToolCtor c s =
     s\<lparr>toolCtorMap := (toolCtorMap s)(ctor_type c \<mapsto> c),
       hotkeySet := insert (ctor_hotkey c) (hotkeySet s),
       keybindings := keybindings s @
         [(nextToken s,
           \<lparr> kb_keyCode = ''Key'' @ ctor_hotkey_upper c, kb_actionName = ctor_type c,
             kb_when = EnableToolTypesIncludes (ctor_type c),
             kb_action = SetActiveToolCall (ctor_type c) \<rparr>)],
       nextToken := Suc (nextToken s),
       keyBindingToken := keyBindingToken s @ [nextToken s],
       trace := trace s
         @ (if toolCtorMap s (ctor_type c) \<noteq> None then [WarnReplace (ctor_type c)] else [])
         @ (if ctor_hotkey c \<in> hotkeySet s then [LogSameHotkey (ctor_hotkey c)] else [])\<rparr>"
  by (simp add: registerToolCtor_def kb_register_def emit_def Let_def)






















subsection \<open>Hotkeys\<close>

lemma registerToolCtor_lookup:
  assumes "tokens_fresh s"
  shows "kb_lookup (nextToken s) (registerToolCtor c s)
           = Some \<lparr> kb_keyCode = ''Key'' @ ctor_hotkey_upper c, kb_actionName = ctor_type c,
                    kb_when = EnableToolTypesIncludes (ctor_type c),
                    kb_action = SetActiveToolCall (ctor_type c) \<rparr>"
proof -
  have "map_of (keybindings s) (nextToken s) = None"
    using assms by (force simp: tokens_fresh_def map_of_eq_None_iff)
  then show ?thesis
    by (simp add: registerToolCtor_eq kb_lookup_def map_add_def)
qed

lemma fold_registerToolCtor_lookup:
  assumes "kb_lookup token s = Some b"
  shows "kb_lookup token (fold registerToolCtor cs s) = Some b"
  using assms
proof (induction cs arbitrary: s)
  case Nil
  then show ?case by simp
next
  case (Cons c cs)
  from Cons.prems have "kb_lookup token (registerToolCtor c s) = Some b"
    by (simp add: registerToolCtor_eq kb_lookup_def map_add_def)
  from Cons.IH [OF this] show ?case by simp
qed

lemma fold_registerToolCtor_map:
  assumes "toolCtorMap s ty = Some c"
  shows "\<exists>c'. toolCtorMap (fold registerToolCtor cs s) ty = Some c'
           \<and> ((\<forall>c2 \<in> set cs. ctor_type c2 \<noteq> ty) \<longrightarrow> c' = c)"
  using assms
proof (induction cs arbitrary: s c)
  case Nil
  then show ?case by simp
next
  case (Cons c1 cs)
  show ?case
  proof (cases "ctor_type c1 = ty")
    case True
    then have "toolCtorMap (registerToolCtor c1 s) ty = Some c1"
      by (simp add: registerToolCtor_eq)
    from Cons.IH [OF this] True show ?thesis by auto
  next
    case False
    with Cons.prems have "toolCtorMap (registerToolCtor c1 s) ty = Some c"
      by (simp add: registerToolCtor_eq)
    from Cons.IH [OF this] False show ?thesis by auto
  qed
qed

lemma setActiveTool_registry:
  "keybindings (state_of (setActiveTool ty s)) = keybindings s"
  by (simp add: setActiveTool_def setCursorWhenActive_def emit_def Let_def split: option.splits)

lemma fire_registry:
  assumes "keeps_bindings a"
  shows "keybindings (state_of (fire a s)) = keybindings s
         \<and> toolCtorMap (state_of (fire a s)) = toolCtorMap s"
proof (cases a)
  case (SetActiveTool ty)
  then show ?thesis by (simp add: setActiveTool_registry setActiveTool_frame)
next
  case (TriggerHotkey token)
  then show ?thesis
    by (simp add: triggerHotkey_def call_action_def setActiveTool_registry setActiveTool_frame
        split: option.splits action_fn.splits)
next
  case (Timeout ev)
  then show ?thesis
    by (simp add: runTimeout_def handleDown_deferred_def emit_def Let_def
        split: list.splits option.splits)
next
  case (PointerMove ev e)
  then show ?thesis by (simp add: handleMove_def emit_def Let_def split: option.splits)
next
  case (PointerUp e)
  then show ?thesis by (simp add: handleUp_def emit_def Let_def split: option.splits)
next
  case UnbindEvent
  with assms show ?thesis by simp
qed (simp_all add: setEnableHotKeyTools_def handleDown_def handleCommandChange_def
       handleSpaceToggle_def handleAltToggle_def handleViewportXOrYChange_def destroy_def
       emit_def split: option.splits)

lemma run_registry:
  assumes "\<forall>a \<in> set ops. keeps_bindings a"
  shows "keybindings (run ops s) = keybindings s \<and> toolCtorMap (run ops s) = toolCtorMap s"
  using assms
proof (induction ops arbitrary: s)
  case Nil
  then show ?case by simp
next
  case (Cons a ops)
  then show ?case using fire_registry [of a s] by simp
qed

text \<open>
  C8. Register a tool class \<open>c\<close> on a manager: \<open>registerToolCtor\<close> records the token of the
  binding it registers, whose \<open>when\<close> and \<open>action\<close> are the closures of the method. After
  any further registrations and any operations that do not unregister the hotkeys,
  triggering that binding while the type of \<open>c\<close> is outside the enabled tool set changes
  nothing. \<open>setEnableHotKeyTools\<close> leaves the bindings as they are, and after it the same
  binding again changes nothing if the new set leaves the type out, and switches to the
  class registered for the type (which is \<open>c\<close> unless a later registration replaced it) if
  the new set has the type, the switch gate is open and the type is not already active.
\<close>

theorem registered_hotkey_follows_enabled_set:
  assumes "tokens_fresh s" and "\<forall>a \<in> set ops. keeps_bindings a"
  shows "keyBindingToken (registerToolCtor c s) = keyBindingToken s @ [nextToken s]
     \<and> (ctor_type c \<notin> set (enableToolTypes (registered_then c cs ops s))
          \<longrightarrow> triggerHotkey (nextToken s) (registered_then c cs ops s)
                = Ok (registered_then c cs ops s))
     \<and> (\<forall>tys.
           keybindings (setEnableHotKeyTools tys (registered_then c cs ops s))
             = keybindings (registered_then c cs ops s)
           \<and> (ctor_type c \<notin> set tys
                \<longrightarrow> triggerHotkey (nextToken s)
                        (setEnableHotKeyTools tys (registered_then c cs ops s))
                      = Ok (setEnableHotKeyTools tys (registered_then c cs ops s)))
           \<and> (ctor_type c \<in> set tys \<and> enableSwitchTool (registered_then c cs ops s)
                \<and> getActiveToolName (registered_then c cs ops s) \<noteq> Some (ctor_type c)
                \<longrightarrow> (\<exists>c' s'. toolCtorMap (registered_then c cs ops s) (ctor_type c) = Some c'
                       \<and> ((\<forall>c2 \<in> set cs. ctor_type c2 \<noteq> ctor_type c) \<longrightarrow> c' = c)
                       \<and> triggerHotkey (nextToken s)
                           (setEnableHotKeyTools tys (registered_then c cs ops s)) = Ok s'
                       \<and> currentTool s'
                           = Some (new_tool c' (nextId (registered_then c cs ops s)))
                       \<and> getActiveToolName s' = Some (inst_type c')
                       \<and> EmitSwitchTool (inst_type c')
                           \<in> set (new_effects
                                 (setEnableHotKeyTools tys (registered_then c cs ops s)) s'))))"
proof -
  let ?ty = "ctor_type c"
  let ?b = "\<lparr> kb_keyCode = ''Key'' @ ctor_hotkey_upper c, kb_actionName = ?ty,
              kb_when = EnableToolTypesIncludes ?ty, kb_action = SetActiveToolCall ?ty \<rparr>"
  let ?s1 = "registerToolCtor c s"
  let ?sf = "fold registerToolCtor cs ?s1"
  define s2 where "s2 = registered_then c cs ops s"
  have s2: "s2 = run ops ?sf" by (simp add: s2_def registered_then_def)
  have l1: "kb_lookup (nextToken s) ?sf = Some ?b"
    by (rule fold_registerToolCtor_lookup [OF registerToolCtor_lookup [OF assms(1)]])
  have reg: "keybindings s2 = keybindings ?sf" "toolCtorMap s2 = toolCtorMap ?sf"
    unfolding s2 using run_registry [OF assms(2), of ?sf] by simp_all
  have l2: "kb_lookup (nextToken s) s2 = Some ?b"
    using l1 reg(1) by (simp add: kb_lookup_def)
  have "toolCtorMap ?s1 ?ty = Some c" by (simp add: registerToolCtor_eq)
  from fold_registerToolCtor_map [OF this, of cs] reg(2) obtain c' where
    c': "toolCtorMap s2 ?ty = Some c'" "(\<forall>c2 \<in> set cs. ctor_type c2 \<noteq> ?ty) \<longrightarrow> c' = c"
    by auto
  have g1: "keyBindingToken ?s1 = keyBindingToken s @ [nextToken s]"
    by (simp add: registerToolCtor_eq)
  have g2: "?ty \<notin> set (enableToolTypes s2) \<longrightarrow> triggerHotkey (nextToken s) s2 = Ok s2"
    using l2 by (simp add: triggerHotkey_def call_when_def)
  have g3: "keybindings (setEnableHotKeyTools tys s2) = keybindings s2
      \<and> (?ty \<notin> set tys
           \<longrightarrow> triggerHotkey (nextToken s) (setEnableHotKeyTools tys s2)
                 = Ok (setEnableHotKeyTools tys s2))
      \<and> (?ty \<in> set tys \<and> enableSwitchTool s2 \<and> getActiveToolName s2 \<noteq> Some ?ty
           \<longrightarrow> (\<exists>c' s'. toolCtorMap s2 ?ty = Some c'
                  \<and> ((\<forall>c2 \<in> set cs. ctor_type c2 \<noteq> ?ty) \<longrightarrow> c' = c)
                  \<and> triggerHotkey (nextToken s) (setEnableHotKeyTools tys s2) = Ok s'
                  \<and> currentTool s' = Some (new_tool c' (nextId s2))
                  \<and> getActiveToolName s' = Some (inst_type c')
                  \<and> EmitSwitchTool (inst_type c')
                      \<in> set (new_effects (setEnableHotKeyTools tys s2) s')))" for tys
  proof (intro conjI impI)
    let ?e = "setEnableHotKeyTools tys s2"
    show "keybindings ?e = keybindings s2" by (simp add: setEnableHotKeyTools_fields)
    have le: "kb_lookup (nextToken s) ?e = Some ?b"
      using l2 by (simp add: setEnableHotKeyTools_fields)
    show "triggerHotkey (nextToken s) ?e = Ok ?e" if "?ty \<notin> set tys"
      using le that by (simp add: triggerHotkey_def call_when_def setEnableHotKeyTools_fields)
    show "\<exists>c' s'. toolCtorMap s2 ?ty = Some c'
            \<and> ((\<forall>c2 \<in> set cs. ctor_type c2 \<noteq> ?ty) \<longrightarrow> c' = c)
            \<and> triggerHotkey (nextToken s) ?e = Ok s'
            \<and> currentTool s' = Some (new_tool c' (nextId s2))
            \<and> getActiveToolName s' = Some (inst_type c')
            \<and> EmitSwitchTool (inst_type c') \<in> set (new_effects ?e s')"
      if h: "?ty \<in> set tys \<and> enableSwitchTool s2 \<and> getActiveToolName s2 \<noteq> Some ?ty"
    proof -
      have tr: "triggerHotkey (nextToken s) ?e = setActiveTool ?ty ?e"
        using le h
        by (simp add: triggerHotkey_def call_when_def call_action_def
            setEnableHotKeyTools_fields)
      have pre: "enableSwitchTool ?e" "getActiveToolName ?e \<noteq> Some ?ty"
        "?ty \<in> set (enableToolTypes ?e)" "toolCtorMap ?e ?ty = Some c'"
        using h c'(1) by (simp_all add: setEnableHotKeyTools_fields)
      let ?s' = "?e\<lparr>currentTool := Some (new_tool c' (nextId ?e)), nextId := Suc (nextId ?e),
                   trace := trace ?e @ switch_effects c' ?e\<rparr>"
      have sw: "setActiveTool ?ty ?e = Ok ?s'"
        by (rule setActiveTool_switch [OF pre])
      have r1: "triggerHotkey (nextToken s) ?e = Ok ?s'" using tr sw by simp
      have r2: "currentTool ?s' = Some (new_tool c' (nextId s2))"
        by (simp add: setEnableHotKeyTools_fields)
      have r3: "getActiveToolName ?s' = Some (inst_type c')"
        by (simp add: getActiveToolName_def new_tool_def)
      have r4: "EmitSwitchTool (inst_type c') \<in> set (new_effects ?e ?s')"
        by (simp add: new_effects_def switch_effects_def)
      show ?thesis
        by (rule exI [of _ c'], rule exI [of _ ?s']) (intro conjI c' r1 r2 r3 r4)
    qed
  qed
  have g3': "\<forall>tys. keybindings (setEnableHotKeyTools tys s2) = keybindings s2
      \<and> (?ty \<notin> set tys
           \<longrightarrow> triggerHotkey (nextToken s) (setEnableHotKeyTools tys s2)
                 = Ok (setEnableHotKeyTools tys s2))
      \<and> (?ty \<in> set tys \<and> enableSwitchTool s2 \<and> getActiveToolName s2 \<noteq> Some ?ty
           \<longrightarrow> (\<exists>c' s'. toolCtorMap s2 ?ty = Some c'
                  \<and> ((\<forall>c2 \<in> set cs. ctor_type c2 \<noteq> ?ty) \<longrightarrow> c' = c)
                  \<and> triggerHotkey (nextToken s) (setEnableHotKeyTools tys s2) = Ok s'
                  \<and> currentTool s' = Some (new_tool c' (nextId s2))
                  \<and> getActiveToolName s' = Some (inst_type c')
                  \<and> EmitSwitchTool (inst_type c')
                      \<in> set (new_effects (setEnableHotKeyTools tys s2) s')))"
    by (intro allI) (rule g3)
  show ?thesis
    unfolding s2_def [symmetric] by (intro conjI g1 g2 g3')
qed

theorem registered_hotkey_follows_enabled_set_witness:
  "triggerHotkey 1
     (registered_then (mk_ctor ''drawRect'' ''r'' ''R'' ''crosshair'' False) []
        [SetEnableHotKeyTools [''select'', ''drawRect''], SetActiveTool ''select'',
         SetEnableHotKeyTools [''select'']]
        (registerToolCtor (mk_ctor ''select'' ''v'' ''V'' ''default'' True)
           (fields_init :: real tm)))
     = Ok (registered_then (mk_ctor ''drawRect'' ''r'' ''R'' ''crosshair'' False) []
             [SetEnableHotKeyTools [''select'', ''drawRect''], SetActiveTool ''select'',
              SetEnableHotKeyTools [''select'']]
             (registerToolCtor (mk_ctor ''select'' ''v'' ''V'' ''default'' True)
                (fields_init :: real tm)))
   \<and> getActiveToolName
       (state_of (triggerHotkey 1
          (setEnableHotKeyTools [''select'', ''drawRect'']
             (registered_then (mk_ctor ''drawRect'' ''r'' ''R'' ''crosshair'' False) []
                [SetEnableHotKeyTools [''select'', ''drawRect''], SetActiveTool ''select'',
                 SetEnableHotKeyTools [''select'']]
                (registerToolCtor (mk_ctor ''select'' ''v'' ''V'' ''default'' True)
                   (fields_init :: real tm))))))
      = Some ''drawRect''"
proof -
  define s :: "real tm" where
    "s = registerToolCtor (mk_ctor ''select'' ''v'' ''V'' ''default'' True) fields_init"
  define c where "c = mk_ctor ''drawRect'' ''r'' ''R'' ''crosshair'' False"
  define ops :: "real op list" where
    "ops = [SetEnableHotKeyTools [''select'', ''drawRect''], SetActiveTool ''select'',
            SetEnableHotKeyTools [''select'']]"
  define s2 where "s2 = registered_then c [] ops s"
  have f: "tokens_fresh s" and n: "nextToken s = 1"
    by (simp_all add: s_def tokens_fresh_def registerToolCtor_eq fields_init_def)
  have k: "\<forall>a \<in> set ops. keeps_bindings a" by (simp add: ops_def)
  have ty: "ctor_type c = ''drawRect''" "inst_type c = ''drawRect''"
    by (simp_all add: c_def mk_ctor_def)
  have st: "enableToolTypes s2 = [''select'']" "enableSwitchTool s2"
    "getActiveToolName s2 = Some ''select''"
    by (simp_all add: s2_def registered_then_def ops_def s_def c_def registerToolCtor_eq
        fields_init_def mk_ctor_def run_defs getActiveToolName_def new_tool_def)
  note T = registered_hotkey_follows_enabled_set [OF f k, of c "[]", folded s2_def]
  from T [THEN conjunct2, THEN conjunct1]
  have 1: "triggerHotkey 1 s2 = Ok s2" by (simp add: ty st n)
  note U = T [THEN conjunct2, THEN conjunct2, THEN spec, of "[''select'', ''drawRect'']",
      THEN conjunct2, THEN conjunct2]
  have pre: "ctor_type c \<in> set [''select'', ''drawRect''] \<and> enableSwitchTool s2
      \<and> getActiveToolName s2 \<noteq> Some (ctor_type c)"
    by (simp add: ty st)
  from U [THEN mp, OF pre] obtain c' s' where
    r: "(\<forall>c2 \<in> set ([] :: tool_ctor list). ctor_type c2 \<noteq> ctor_type c) \<longrightarrow> c' = c"
      "triggerHotkey (nextToken s) (setEnableHotKeyTools [''select'', ''drawRect''] s2) = Ok s'"
      "getActiveToolName s' = Some (inst_type c')"
    by (elim exE conjE)
  from r(1) have "c' = c" by simp
  with r(2,3) have "triggerHotkey 1 (setEnableHotKeyTools [''select'', ''drawRect''] s2) = Ok s'"
    "getActiveToolName s' = Some ''drawRect''"
    by (simp_all add: n ty)
  then have "triggerHotkey 1 s2 = Ok s2
      \<and> getActiveToolName
          (state_of (triggerHotkey 1 (setEnableHotKeyTools [''select'', ''drawRect''] s2)))
        = Some ''drawRect''"
    using 1 by simp
  then show ?thesis unfolding s2_def ops_def c_def s_def .
qed

end
